theory Spec2Isabelle
  imports Complex_Main
begin

section \<open>Characters, strings and the regular expressions of the text processor\<close>

text \<open>
  A Python \<open>str\<close> is a sequence of code points. The model uses \<^typ>\<open>string\<close> and reads a
  \<^typ>\<open>char\<close> as the code point with the same number, so it covers texts over the code
  points 0..255 (Latin-1). The character classes below are the ones CPython uses for
  \<open>str.isspace\<close>, \<open>str.strip\<close>, \<open>str.lower\<close> and for \<open>\s\<close>, \<open>\S\<close>, \<open>\w\<close> in a \<open>str\<close>
  pattern, restricted to that range. Python floats are read as real numbers.
\<close>

definition code_point :: "char \<Rightarrow> nat" where
  "code_point c = of_char c"

definition in_range :: "char \<Rightarrow> char \<Rightarrow> char \<Rightarrow> bool" where
  "in_range lo hi c = (code_point lo \<le> code_point c \<and> code_point c \<le> code_point hi)"

definition is_space :: "char \<Rightarrow> bool" where
  "is_space c = (code_point c \<in> {9, 10, 11, 12, 13, 28, 29, 30, 31, 32, 133, 160})"

definition is_alnum :: "char \<Rightarrow> bool" where
  "is_alnum c =
     (let n = code_point c
      in (48 \<le> n \<and> n \<le> 57) \<or> (65 \<le> n \<and> n \<le> 90) \<or> (97 \<le> n \<and> n \<le> 122)
         \<or> n \<in> {170, 178, 179, 181, 185, 186, 188, 189, 190}
         \<or> (192 \<le> n \<and> n \<le> 214) \<or> (216 \<le> n \<and> n \<le> 246) \<or> (248 \<le> n \<and> n \<le> 255))"

definition is_word :: "char \<Rightarrow> bool" where
  "is_word c = (is_alnum c \<or> c = CHR ''_'')"

definition lower_char :: "char \<Rightarrow> char" where
  "lower_char c =
     (let n = code_point c
      in if (65 \<le> n \<and> n \<le> 90) \<or> (192 \<le> n \<and> n \<le> 214) \<or> (216 \<le> n \<and> n \<le> 222)
         then char_of (n + 32) else c)"

definition lower :: "string \<Rightarrow> string" where
  "lower s = map lower_char s"

definition strip :: "string \<Rightarrow> string" where
  "strip s = rev (dropWhile is_space (rev (dropWhile is_space s)))"

text \<open>Python's \<open>needle in haystack\<close> on strings: a contiguous occurrence.\<close>

fun starts_with :: "string \<Rightarrow> string \<Rightarrow> bool" where
  "starts_with s [] = True"
| "starts_with [] (p # ps) = False"
| "starts_with (c # cs) (p # ps) = (c = p \<and> starts_with cs ps)"

fun str_in :: "string \<Rightarrow> string \<Rightarrow> bool" where
  "str_in w [] = (w = [])"
| "str_in w (c # cs) = (starts_with (c # cs) w \<or> str_in w cs)"

text \<open>
  \<open>re.sub(pattern, repl, text)\<close> for a pattern that never matches the empty string: scan
  from the left; where the pattern matches, emit \<open>repl\<close> and go on after the match,
  otherwise copy one character. \<open>m\<close> gives the length of the match that starts at the
  head of its argument.
\<close>

function re_sub :: "(string \<Rightarrow> nat option) \<Rightarrow> string \<Rightarrow> string \<Rightarrow> string" where
  "re_sub m repl [] = []"
| "re_sub m repl (c # cs) =
     (case m (c # cs) of
        Some (Suc n) \<Rightarrow> repl @ re_sub m repl (drop n cs)
      | _ \<Rightarrow> c # re_sub m repl cs)"
  by pat_completeness auto
termination
  by (relation "measure (\<lambda>(m, repl, s). length s)") auto

text \<open>\<open>\s+\<close>: a maximal run of whitespace.\<close>

definition ws_run :: "string \<Rightarrow> nat option" where
  "ws_run s = (let n = length (takeWhile is_space s) in if n = 0 then None else Some n)"

text \<open>
  The URL pattern
  \<^verbatim>\<open>http[s]?://(?:[a-zA-Z]|[0-9]|[$-_@.&+]|[!*\\(\\),]|(?:%[0-9a-fA-F][0-9a-fA-F]))+\<close>.
  Every alternative of the group but the last takes one character; the last one,
  a percent sign and two hex digits, is never reached, since \<open>%\<close> lies in the range
  \<open>$-_\<close> of the third alternative. The greedy group therefore takes the maximal run of
  characters of the first four classes.
\<close>

definition url_char :: "char \<Rightarrow> bool" where
  "url_char c =
     (in_range CHR ''a'' CHR ''z'' c \<or> in_range CHR ''A'' CHR ''Z'' c
      \<or> in_range CHR ''0'' CHR ''9'' c
      \<or> in_range CHR ''$'' CHR ''_'' c \<or> c \<in> set ''@.&+''
      \<or> c \<in> set [CHR ''!'', CHR ''*'', CHR 0x5C, CHR ''('', CHR '')'', CHR '',''])"

definition url_match :: "string \<Rightarrow> nat option" where
  "url_match s =
     (if starts_with s ''http'' then
        (let r1 = drop 4 s;
             k = (if starts_with r1 ''s'' then 1 else 0);
             r2 = drop k r1
         in if starts_with r2 ''://'' then
              (let n = length (takeWhile url_char (drop 3 r2))
               in if n = 0 then None else Some (4 + k + 3 + n))
            else None)
      else None)"

text \<open>
  \<open>\S+@\S+\<close>: the first \<open>\S+\<close> starts at the head and backtracks from the end of the
  run of non-whitespace to an \<open>@\<close> that has a character before and after it; the
  second \<open>\S+\<close> then takes the rest of the run.
\<close>

definition email_match :: "string \<Rightarrow> nat option" where
  "email_match s =
     (let run = takeWhile (\<lambda>c. \<not> is_space c) s
      in if CHR ''@'' \<in> set (butlast (tl run)) then Some (length run) else None)"

text \<open>\<open>re.split(r'[.!?]+', text)\<close>: the pieces between maximal runs of terminators.\<close>

definition is_terminator :: "char \<Rightarrow> bool" where
  "is_terminator c = (c \<in> set ''.!?'')"

function re_split_terminators :: "string \<Rightarrow> string list" where
  "re_split_terminators s =
     (let piece = takeWhile (\<lambda>c. \<not> is_terminator c) s;
          rest = dropWhile (\<lambda>c. \<not> is_terminator c) s
      in if rest = [] then [piece]
         else piece # re_split_terminators (dropWhile is_terminator rest))"
  by pat_completeness auto
termination
proof (relation "measure length")
  show "wf (measure length)" by simp
next
  fix s :: string and piece rest
  assume r: "rest = dropWhile (\<lambda>c. \<not> is_terminator c) s" and ne: "rest \<noteq> []"
  from ne obtain c cs where cs: "rest = c # cs" by (cases rest) auto
  have "rest \<noteq> [] \<Longrightarrow> \<not> \<not> is_terminator (hd rest)"
    unfolding r by (rule hd_dropWhile)
  then have "is_terminator c" using cs by simp
  then have "length (dropWhile is_terminator rest) \<le> length cs"
    using cs by (simp add: length_dropWhile_le)
  moreover have "length rest \<le> length s" using r by (simp add: length_dropWhile_le)
  ultimately show "(dropWhile is_terminator rest, s) \<in> measure length" using cs by simp
qed

text \<open>\<open>re.findall(r'\w+', text)\<close>: the maximal runs of word characters.\<close>

function findall_words :: "string \<Rightarrow> string list" where
  "findall_words s =
     (case dropWhile (\<lambda>c. \<not> is_word c) s of
        [] \<Rightarrow> []
      | c # cs \<Rightarrow> takeWhile is_word (c # cs) # findall_words (dropWhile is_word (c # cs)))"
  by pat_completeness auto
termination
proof (relation "measure length")
  show "wf (measure length)" by simp
next
  fix s :: string and c cs
  assume r: "dropWhile (\<lambda>c. \<not> is_word c) s = c # cs"
  have "dropWhile (\<lambda>c. \<not> is_word c) s \<noteq> []
      \<Longrightarrow> \<not> \<not> is_word (hd (dropWhile (\<lambda>c. \<not> is_word c) s))"
    by (rule hd_dropWhile)
  then have "is_word c" using r by simp
  then have "length (dropWhile is_word (c # cs)) \<le> length cs"
    by (simp add: length_dropWhile_le)
  moreover have "length (c # cs) \<le> length s"
    using r length_dropWhile_le [of "\<lambda>c. \<not> is_word c" s] by simp
  ultimately show "(dropWhile is_word (c # cs), s) \<in> measure length" by simp
qed

text \<open>\<open>re.search(r'[A-Z]{3,}', text)\<close>: three consecutive ASCII capitals somewhere.\<close>

fun has_caps_run :: "string \<Rightarrow> bool" where
  "has_caps_run (a # b # c # cs) =
     ((in_range CHR ''A'' CHR ''Z'' a \<and> in_range CHR ''A'' CHR ''Z'' b \<and> in_range CHR ''A'' CHR ''Z'' c)
      \<or> has_caps_run (b # c # cs))"
| "has_caps_run _ = False"

declare re_sub.simps [simp del]
declare re_split_terminators.simps [simp del]
declare findall_words.simps [simp del]

section \<open>The text processor (\<open>text_processor_simple.py\<close>)\<close>

text \<open>
  \<open>BeautifulSoup(text, 'html.parser').get_text()\<close> is a library call; the model takes it
  as the parameter \<open>get_text\<close> of every function that reaches \<open>clean_html\<close>.
\<close>

definition stop_words :: "string list" where
  "stop_words =
     [''i'', ''me'', ''my'', ''myself'', ''we'', ''our'', ''ours'', ''ourselves'',
      ''you'', ''your'', ''yours'', ''yourself'', ''yourselves'', ''he'', ''him'',
      ''his'', ''himself'', ''she'', ''her'', ''hers'', ''herself'', ''it'', ''its'',
      ''itself'', ''they'', ''them'', ''their'', ''theirs'', ''themselves'', ''what'',
      ''which'', ''who'', ''whom'', ''this'', ''that'', ''these'', ''those'', ''am'',
      ''is'', ''are'', ''was'', ''were'', ''be'', ''been'', ''being'', ''have'',
      ''has'', ''had'', ''having'', ''do'', ''does'', ''did'', ''doing'', ''a'',
      ''an'', ''the'', ''and'', ''but'', ''if'', ''or'', ''because'', ''as'',
      ''until'', ''while'', ''of'', ''at'', ''by'', ''for'', ''with'', ''through'',
      ''during'', ''before'', ''after'', ''above'', ''below'', ''up'', ''down'',
      ''in'', ''out'', ''on'', ''off'', ''over'', ''under'', ''again'', ''further'',
      ''then'', ''once'']"

definition clean_html :: "(string \<Rightarrow> string) \<Rightarrow> string \<Rightarrow> string" where
  "clean_html get_text text =
     (if text = [] then []
      else strip (re_sub ws_run '' '' (get_text text)))"

text \<open>The class \<open>[^\w\s\.\!\?\,\;\:]\<close> of \<open>clean_text\<close>, as the set it keeps.\<close>

definition kept_by_clean :: "char \<Rightarrow> bool" where
  "kept_by_clean c = (is_word c \<or> is_space c \<or> c \<in> set ''.!?,;:'')"

definition clean_text :: "(string \<Rightarrow> string) \<Rightarrow> string \<Rightarrow> string" where
  "clean_text get_text text =
     (if text = [] then []
      else
        (let t1 = clean_html get_text text;
             t2 = lower t1;
             t3 = re_sub url_match [] t2;
             t4 = re_sub email_match [] t3;
             t5 = map (\<lambda>c. if kept_by_clean c then c else CHR '' '') t4;
             t6 = re_sub ws_run '' '' t5
         in strip t6))"

definition extract_sentences :: "string \<Rightarrow> string list" where
  "extract_sentences text =
     (if text = [] then []
      else map strip
             (filter (\<lambda>s. strip s \<noteq> [] \<and> length (strip s) > 10) (re_split_terminators text)))"

definition tokenize :: "string \<Rightarrow> bool \<Rightarrow> string list" where
  "tokenize text remove_stopwords =
     (if text = [] then []
      else
        (let tokens = findall_words (lower text);
             tokens' = (if remove_stopwords then filter (\<lambda>t. t \<notin> set stop_words) tokens
                        else tokens)
         in filter (\<lambda>t. length t > 2) tokens'))"

text \<open>
  \<open>Counter(tokens)\<close> keeps its keys in the order of their first occurrence, and
  \<open>most_common(n)\<close> is the stable sort of the items by count, largest first, cut to \<open>n\<close>.
\<close>

definition counter :: "'a list \<Rightarrow> ('a \<times> nat) list" where
  "counter xs = map (\<lambda>k. (k, count_list xs k)) (rev (remdups (rev xs)))"

definition most_common :: "nat \<Rightarrow> ('a \<times> nat) list \<Rightarrow> ('a \<times> nat) list" where
  "most_common n items = take n (sort_key (\<lambda>kc. - int (snd kc)) items)"

definition extract_keywords :: "(string \<Rightarrow> string) \<Rightarrow> string \<Rightarrow> nat \<Rightarrow> string list" where
  "extract_keywords get_text text max_keywords =
     (if text = [] then []
      else
        (let cleaned = clean_text get_text text;
             tokens = tokenize cleaned True;
             token_freq = counter tokens
         in map fst (most_common max_keywords token_freq)))"

fun join :: "string \<Rightarrow> string list \<Rightarrow> string" where
  "join sep [] = []"
| "join sep [x] = x"
| "join sep (x # y # ys) = x @ sep @ join sep (y # ys)"

text \<open>The class \<open>[^\w\s\.\!\?\,\;\:\-\']\<close> of \<open>preprocess_for_embedding\<close>.\<close>

definition kept_by_preprocess :: "char \<Rightarrow> bool" where
  "kept_by_preprocess c = (is_word c \<or> is_space c \<or> c \<in> set ''.!?,;:-'' \<or> c = CHR 0x27)"

definition preprocess_for_embedding :: "(string \<Rightarrow> string) \<Rightarrow> string \<Rightarrow> string" where
  "preprocess_for_embedding get_text text =
     (if text = [] then []
      else
        (let t1 = clean_html get_text text;
             t2 = re_sub url_match [] t1;
             t3 = re_sub email_match [] t2;
             t4 = map (\<lambda>c. if kept_by_preprocess c then c else CHR '' '') t3;
             t5 = re_sub ws_run '' '' t4;
             t6 = (if length t5 > 1000 then join '' '' (take 3 (extract_sentences t5)) else t5)
         in strip t6))"

text \<open>\<open>re.search(r'http[s]?://', text)\<close> and \<open>re.search(r'\d+', text)\<close>.\<close>

definition has_url_scheme :: "string \<Rightarrow> bool" where
  "has_url_scheme text = (str_in ''http://'' text \<or> str_in ''https://'' text)"

definition has_digit :: "string \<Rightarrow> bool" where
  "has_digit text = (\<exists>c \<in> set text. in_range CHR ''0'' CHR ''9'' c)"

record features =
  f_original_text :: string
  f_clean_text :: string
  f_sentences :: "string list"
  f_keywords :: "string list"
  f_word_count :: nat
  f_sentence_count :: nat
  f_has_urls :: bool
  f_has_numbers :: bool
  f_has_caps :: bool
  f_preprocessed_for_embedding :: string

definition extract_claim_features :: "(string \<Rightarrow> string) \<Rightarrow> string \<Rightarrow> features" where
  "extract_claim_features get_text text =
     \<lparr> f_original_text = text,
       f_clean_text = clean_text get_text text,
       f_sentences = extract_sentences text,
       f_keywords = extract_keywords get_text text 10,
       f_word_count = length (tokenize text False),
       f_sentence_count = length (extract_sentences text),
       f_has_urls = has_url_scheme text,
       f_has_numbers = has_digit text,
       f_has_caps = has_caps_run text,
       f_preprocessed_for_embedding = preprocess_for_embedding get_text text \<rparr>"

subsection \<open>Cleaned texts\<close>

text \<open>
  Two predicates for the proofs about \<open>clean_text\<close>. A plain character is one that
  \<open>clean_text\<close> can leave in its result: a word character, a blank, or one of the
  punctuation marks it keeps. A text is collapsed when its only whitespace characters
  are blanks and no two of them are adjacent.
\<close>

definition plain_char :: "char \<Rightarrow> bool" where
  "plain_char c = (is_word c \<or> c = CHR '' '' \<or> c \<in> set ''.!?,;:'')"

definition collapsed :: "string \<Rightarrow> bool" where
  "collapsed s =
     ((\<forall>c \<in> set s. is_space c \<longrightarrow> c = CHR '' '')
      \<and> successively (\<lambda>a b. \<not> (is_space a \<and> is_space b)) s)"

section \<open>The classification service (\<open>classification_service.py\<close>)\<close>

subsection \<open>Python values, dictionaries and exceptions\<close>

datatype py_error =
    KeyError string
  | TypeError string
  | IndexError string
  | ValueError string
  | Exception string

text \<open>\<open>str(e)\<close>: a \<open>KeyError\<close> prints the repr of its key, the others their message.\<close>

definition str_of_error :: "py_error \<Rightarrow> string" where
  "str_of_error e =
     (case e of
        KeyError k \<Rightarrow> [CHR 0x27] @ k @ [CHR 0x27]
      | TypeError m \<Rightarrow> m
      | IndexError m \<Rightarrow> m
      | ValueError m \<Rightarrow> m
      | Exception m \<Rightarrow> m)"

datatype pyval = Str string | Num real

type_synonym pydict = "(string \<times> pyval) list"

text \<open>\<open>d[k]\<close> raises \<open>KeyError\<close> on a missing key.\<close>

definition getitem :: "pydict \<Rightarrow> string \<Rightarrow> py_error + pyval" where
  "getitem d k = (case map_of d k of None \<Rightarrow> Inl (KeyError k) | Some v \<Rightarrow> Inr v)"

definition get_num :: "pydict \<Rightarrow> string \<Rightarrow> py_error + real" where
  "get_num d k =
     (case getitem d k of
        Inl e \<Rightarrow> Inl e
      | Inr (Num x) \<Rightarrow> Inr x
      | Inr (Str _) \<Rightarrow> Inl (TypeError ''number expected''))"

definition get_str :: "pydict \<Rightarrow> string \<Rightarrow> py_error + string" where
  "get_str d k =
     (case getitem d k of
        Inl e \<Rightarrow> Inl e
      | Inr (Str x) \<Rightarrow> Inr x
      | Inr (Num _) \<Rightarrow> Inl (TypeError ''string expected''))"

text \<open>One item of the sentiment pipeline's output: \<open>{'label': ..., 'score': ...}\<close>.\<close>

record sentiment =
  label :: string
  score :: real

text \<open>
  What the service reaches outside the repository: BeautifulSoup's \<open>get_text\<close>, the
  float formats \<open>.1f\<close> and \<open>+.1f\<close> of the f-strings, and \<open>self.classifier\<close>, which is
  \<open>None\<close> when the model failed to load and otherwise a call that returns a list of
  sentiment items or raises.
\<close>

record service =
  soup_get_text :: "string \<Rightarrow> string"
  format_1f :: "real \<Rightarrow> string"
  format_signed_1f :: "real \<Rightarrow> string"
  classifier :: "(string \<Rightarrow> py_error + sentiment list) option"

subsection \<open>Heuristic analysis\<close>

definition scientific_words :: "string list" where
  "scientific_words =
     [''study'', ''research'', ''clinical trial'', ''scientific'', ''evidence'',
      ''data'', ''according to'', ''published'', ''peer-reviewed'', ''journal'']"

definition authority_words :: "string list" where
  "authority_words =
     [''cdc'', ''who'', ''fda'', ''nasa'', ''government'', ''official'',
      ''university'', ''medical center'', ''hospital'', ''institute'']"

definition uncertainty_words :: "string list" where
  "uncertainty_words =
     [''maybe'', ''possibly'', ''might'', ''could'', ''allegedly'', ''reportedly'',
      ''supposedly'', ''rumor'', ''unconfirmed'']"

definition absolute_words :: "string list" where
  "absolute_words =
     [''always'', ''never'', ''all'', ''every'', ''none'', ''completely'', ''totally'',
      ''absolutely'', ''definitely'', ''guaranteed'']"

definition sensational_words :: "string list" where
  "sensational_words =
     [''shocking'', ''unbelievable'', ''amazing'', ''incredible'', ''secret'',
      ''exposed'', ''conspiracy'', ''cover-up'', ''scandal'', ''breaking'']"

definition emotional_words :: "string list" where
  "emotional_words =
     [''fear'', ''panic'', ''terrifying'', ''horrifying'', ''outrageous'',
      ''disgusting'', ''shameful'']"

definition factual_indicators :: "string list" where
  "factual_indicators =
     [''percent'', ''%'', ''million'', ''billion'', ''study shows'',
      ''research indicates'', ''data shows'']"

definition source_indicators :: "string list" where
  "source_indicators =
     [''study'', ''research'', ''according to'', ''expert'', ''official'',
      ''government'', ''university'', ''journal'', ''published'']"

definition year_tokens :: "string list" where
  "year_tokens =
     [''2023'', ''2024'', ''2025'']"

definition statistic_markers :: "string list" where
  "statistic_markers =
     [''%'', ''$'', ''million'', ''billion'', ''thousand'']"

text \<open>\<open>any(word in text for word in words)\<close>.\<close>

definition any_in :: "string list \<Rightarrow> string \<Rightarrow> bool" where
  "any_in words text = (\<exists>w \<in> set words. str_in w text)"

text \<open>One round of the loop of \<open>_analyze_evidence_quality\<close>.\<close>

definition snippet_quality :: "real \<Rightarrow> string \<Rightarrow> real" where
  "snippet_quality quality_score snippet =
     (let q1 = (if length snippet > 100 then quality_score + 5 else quality_score);
          q2 = (if any_in source_indicators (lower snippet) then q1 + 8 else q1);
          q3 = (if any_in year_tokens snippet then q2 + 3 else q2);
          q4 = (if any_in statistic_markers snippet then q3 + 4 else q3)
      in q4)"

definition analyze_evidence_quality :: "string list \<Rightarrow> real" where
  "analyze_evidence_quality evidence_snippets =
     (if evidence_snippets = [] then - 20
      else min (foldl snippet_quality 0 evidence_snippets) 25)"

text \<open>A rule of the heuristic: when it fires, move the score and record the reason.\<close>

definition rule :: "bool \<Rightarrow> real \<Rightarrow> string \<Rightarrow> real \<times> string list \<Rightarrow> real \<times> string list" where
  "rule fires delta reason st =
     (if fires then (fst st + delta, snd st @ [reason]) else st)"

text \<open>
  The score and the reasons after the nine lexical rules, before the evidence step.
  \<open>claim\<close> is the preprocessed claim.
\<close>

definition lexical_rules :: "service \<Rightarrow> string \<Rightarrow> real \<times> string list" where
  "lexical_rules svc claim =
     (let feats = extract_claim_features (soup_get_text svc) claim;
          s0 = (50, []);
          s1 = rule (f_has_caps feats) (- 10) ''Contains excessive capitalization'' s0;
          s2 = rule (length (f_sentences feats) = 1 \<and> f_word_count feats < 5) (- 15)
                 ''Very short claim with limited context'' s1;
          s3 = rule (any_in scientific_words (lower claim)) 15
                 ''Contains scientific language'' s2;
          s4 = rule (any_in authority_words (lower claim)) 10
                 ''References authoritative sources'' s3;
          s5 = rule (any_in uncertainty_words (lower claim)) (- 3)
                 ''Contains uncertainty language'' s4;
          s6 = rule (any_in absolute_words (lower claim)) (- 5)
                 ''Contains absolute statements'' s5;
          s7 = rule (any_in sensational_words (lower claim)) (- 15)
                 ''Contains sensational language'' s6;
          s8 = rule (any_in emotional_words (lower claim)) (- 8)
                 ''Contains emotional manipulation'' s7;
          s9 = rule (any_in factual_indicators (lower claim)) 8
                 ''Contains specific factual claims'' s8
      in s9)"

text \<open>\<open>if evidence_snippets:\<close> holds for a list that is neither \<open>None\<close> nor empty.\<close>

definition evidence_step ::
  "service \<Rightarrow> string list option \<Rightarrow> real \<times> string list \<Rightarrow> real \<times> string list" where
  "evidence_step svc evidence_snippets st =
     (case evidence_snippets of
        Some (e # es) \<Rightarrow>
          (let evidence_score = analyze_evidence_quality (e # es)
           in (fst st + evidence_score,
               snd st @ [''Evidence quality analysis: +'' @ format_1f svc evidence_score]))
      | _ \<Rightarrow> (fst st - 20, snd st @ [''No supporting evidence found'']))"

text \<open>The running score of \<open>_analyze_claim_heuristics\<close> before it is clamped.\<close>

definition heuristic_score :: "service \<Rightarrow> string \<Rightarrow> string list option \<Rightarrow> real" where
  "heuristic_score svc claim evidence_snippets =
     fst (evidence_step svc evidence_snippets (lexical_rules svc claim))"

definition classification_of_score :: "real \<Rightarrow> string" where
  "classification_of_score sc =
     (if sc \<ge> 70 then ''True''
      else if sc \<ge> 40 then ''Unverified''
      else if sc \<ge> 20 then ''Misleading''
      else ''False'')"

definition analyze_claim_heuristics :: "service \<Rightarrow> string \<Rightarrow> string list option \<Rightarrow> pydict" where
  "analyze_claim_heuristics svc claim evidence_snippets =
     (let st = evidence_step svc evidence_snippets (lexical_rules svc claim);
          sc = fst st;
          reasoning_parts = snd st;
          classification = classification_of_score sc
      in [(''classification'', Str classification),
          (''score'', Num (max 0 (min 100 sc))),
          (''reasoning'', Str (if reasoning_parts \<noteq> [] then join ''; '' reasoning_parts
                               else ''Standard analysis applied''))])"

subsection \<open>Fusion with the sentiment signal\<close>

definition adjustment_of :: "sentiment \<Rightarrow> real" where
  "adjustment_of sentiment_result =
     (if label sentiment_result = ''LABEL_0'' then - 5 * score sentiment_result
      else if label sentiment_result = ''LABEL_2'' then 2 * score sentiment_result
      else 0)"

text \<open>The \<open>if\<close>/\<open>elif\<close> chain that recalculates the classification.\<close>

definition recalculate :: "real \<Rightarrow> string \<Rightarrow> string" where
  "recalculate final_score classification =
     (if final_score \<ge> 70 \<and> classification \<noteq> ''True'' then ''True''
      else if final_score < 20 \<and> classification \<noteq> ''False'' then ''False''
      else if 20 \<le> final_score \<and> final_score < 40
              \<and> classification \<notin> set [''Misleading'', ''False''] then ''Misleading''
      else if 40 \<le> final_score \<and> final_score < 70
              \<and> classification \<notin> set [''Unverified'', ''True''] then ''Unverified''
      else classification)"

definition combine_analysis_results :: "service \<Rightarrow> pydict \<Rightarrow> sentiment \<Rightarrow> py_error + pydict" where
  "combine_analysis_results svc heuristic_result sentiment_result =
     (case get_num heuristic_result ''score'' of
        Inl e \<Rightarrow> Inl e
      | Inr base_score \<Rightarrow>
     (case get_str heuristic_result ''classification'' of
        Inl e \<Rightarrow> Inl e
      | Inr classification \<Rightarrow>
     (let sentiment_score = score sentiment_result;
          adjustment = adjustment_of sentiment_result;
          final_score = max 0 (min 100 (base_score + adjustment));
          classification' = recalculate final_score classification
      in (case get_str heuristic_result ''reasoning'' of
            Inl e \<Rightarrow> Inl e
          | Inr reasoning \<Rightarrow>
              Inr [(''classification'', Str classification'),
                   (''reliability_score'', Num final_score),
                   (''confidence'', Num (min (sentiment_score * 100) 95)),
                   (''reasoning'',
                    Str (if adjustment \<noteq> 0
                         then reasoning @ ''; Sentiment analysis adjustment: ''
                                @ format_signed_1f svc adjustment
                         else reasoning))]))))"

subsection \<open>\<open>classify_claim\<close>\<close>

definition failure_result :: "string \<Rightarrow> pydict" where
  "failure_result reasoning =
     [(''classification'', Str ''Unverified''),
      (''reliability_score'', Num 0),
      (''confidence'', Num 0),
      (''reasoning'', Str reasoning)]"

text \<open>\<open>self.classifier(processed_claim)[0]\<close>.\<close>

definition first_sentiment ::
  "(string \<Rightarrow> py_error + sentiment list) \<Rightarrow> string \<Rightarrow> py_error + sentiment" where
  "first_sentiment clf processed_claim =
     (case clf processed_claim of
        Inl e \<Rightarrow> Inl e
      | Inr [] \<Rightarrow> Inl (IndexError ''list index out of range'')
      | Inr (r # _) \<Rightarrow> Inr r)"

text \<open>
  The inner \<open>try\<close>: the sentiment call and the fusion; any exception leaves the
  heuristic result as the final result, as does an absent classifier.
\<close>

definition final_result_of :: "service \<Rightarrow> string \<Rightarrow> pydict \<Rightarrow> pydict" where
  "final_result_of svc processed_claim classification_result =
     (case classifier svc of
        None \<Rightarrow> classification_result
      | Some clf \<Rightarrow>
          (case first_sentiment clf processed_claim of
             Inl e \<Rightarrow> classification_result
           | Inr sentiment_result \<Rightarrow>
               (case combine_analysis_results svc classification_result sentiment_result of
                  Inl e \<Rightarrow> classification_result
                | Inr r \<Rightarrow> r)))"

text \<open>
  The body of the outer \<open>try\<close>. The log line formats \<open>final_result['classification']\<close>
  and \<open>final_result['reliability_score']\<close> before the result is returned.
\<close>

definition classify_claim_body ::
  "service \<Rightarrow> string \<Rightarrow> string list option \<Rightarrow> py_error + pydict" where
  "classify_claim_body svc claim_text evidence_snippets =
     (let processed_claim = preprocess_for_embedding (soup_get_text svc) claim_text
      in if strip processed_claim = [] then Inr (failure_result ''Empty or invalid claim text'')
         else
           (let classification_result =
                  analyze_claim_heuristics svc processed_claim evidence_snippets;
                final_result = final_result_of svc processed_claim classification_result
            in (case getitem final_result ''classification'' of
                  Inl e \<Rightarrow> Inl e
                | Inr _ \<Rightarrow>
                    (case get_num final_result ''reliability_score'' of
                       Inl e \<Rightarrow> Inl e
                     | Inr _ \<Rightarrow> Inr final_result))))"

definition classify_claim :: "service \<Rightarrow> string \<Rightarrow> string list option \<Rightarrow> pydict" where
  "classify_claim svc claim_text evidence_snippets =
     (case classify_claim_body svc claim_text evidence_snippets of
        Inr r \<Rightarrow> r
      | Inl e \<Rightarrow> failure_result (''Classification error: '' @ str_of_error e))"

section \<open>The retrieval service (\<open>retrieval_service.py\<close>)\<close>

subsection \<open>Data\<close>

text \<open>A row of \<open>fact_sources\<close>.\<close>

record fact_source =
  fs_id :: int
  fs_title :: string
  fs_content :: string
  fs_source_name :: string
  fs_source_url :: string

text \<open>A hit of the vector search, \<open>{"id", "score", "payload"}\<close>.\<close>

record vector_hit =
  vh_id :: int
  vh_score :: real
  vh_payload :: "(string \<times> string) list"

text \<open>An entry of the keyword search, \<open>{"id", "score", "source", "match_type"}\<close>.\<close>

record keyword_match =
  km_id :: int
  km_score :: real
  km_source :: fact_source

text \<open>
  A value of the dictionary \<open>unified_results\<close>. The key \<open>"payload"\<close> is present in the
  entries made from a vector hit, the key \<open>"source"\<close> in those made from a keyword
  match alone.
\<close>

record unified =
  u_id :: int
  u_vector_score :: real
  u_keyword_score :: real
  u_payload :: "(string \<times> string) list option"
  u_source :: "fact_source option"
  u_match_type :: string

text \<open>An element of the list that \<open>retrieve_evidence\<close> returns.\<close>

record evidence =
  ev_source_id :: int
  ev_hybrid_score :: real
  ev_vector_score :: real
  ev_keyword_score :: real
  ev_match_type :: string
  ev_title :: string
  ev_content :: string
  ev_source_name :: string
  ev_source_url :: string

text \<open>A row of \<open>claims\<close> as far as the analysis reads it.\<close>

record claim_record =
  cr_id :: int
  cr_created_at :: string

record embedding_metadata =
  md_claim_id :: int
  md_text :: string
  md_source_url :: "string option"
  md_word_count :: nat
  md_created_at :: string

text \<open>
  The dictionary that \<open>analyze_claim\<close> returns, and the shorter one that the batch loop
  makes itself for a claim it does not analyse.
\<close>

record source_summary =
  ss_title :: string
  ss_source_name :: string
  ss_source_url :: string
  ss_relevance_score :: real

record analysis_result =
  r_claim_id :: "int option"
  r_claim :: string
  r_classification :: string
  r_reliability :: real
  r_confidence :: real
  r_evidence :: "string list"
  r_reasoning :: string
  r_source_url :: "string option"
  r_processing_time_ms :: int
  r_evidence_sources :: "source_summary list"

record degraded_result =
  d_claim :: string
  d_classification :: string
  d_reliability :: real
  d_evidence :: "string list"
  d_reasoning :: string
  d_source_url :: "string option"

datatype batch_item = Analysed analysis_result | Degraded degraded_result

datatype log_details = ResultDetails analysis_result | ErrorDetails string

text \<open>
  The collaborators outside the repository, over a state \<open>'w\<close> of the relational
  database and the vector store: the sentence-transformer model (\<open>None\<close> when it failed
  to load), the Qdrant client (\<open>None\<close> when it failed to initialise), the queries and
  updates of the SQLAlchemy session, and the clock.
\<close>

record 'w qdrant =
  q_search :: "'w \<Rightarrow> real list \<Rightarrow> nat \<Rightarrow> real \<Rightarrow> py_error + vector_hit list"
  q_upsert :: "'w \<Rightarrow> int \<Rightarrow> real list \<Rightarrow> embedding_metadata \<Rightarrow> (py_error + unit) \<times> 'w"

record 'w env =
  e_service :: service
  e_embedding_model :: "(string \<Rightarrow> py_error + real list) option"
  e_qdrant_client :: "'w qdrant option"
  e_similarity_threshold :: real
  e_query_fact_sources :: "'w \<Rightarrow> py_error + fact_source list"
  e_store_claim :: "'w \<Rightarrow> string \<Rightarrow> string option \<Rightarrow> (py_error + claim_record) \<times> 'w"
  e_update_claim_results ::
    "'w \<Rightarrow> int \<Rightarrow> string \<Rightarrow> real \<Rightarrow> string list \<Rightarrow> (py_error + unit) \<times> 'w"
  e_log_processing :: "'w \<Rightarrow> int \<Rightarrow> string \<Rightarrow> string \<Rightarrow> log_details \<Rightarrow> int \<Rightarrow> 'w"
  e_elapsed_ms :: "'w \<Rightarrow> int"

subsection \<open>\<open>embedding_service.generate_embedding\<close> and \<open>db_service.search_similar_embeddings\<close>\<close>

definition generate_embedding :: "'w env \<Rightarrow> string \<Rightarrow> py_error + real list" where
  "generate_embedding env text =
     (case e_embedding_model env of
        None \<Rightarrow> Inl (Exception ''Embedding model not loaded'')
      | Some encode \<Rightarrow>
          if text = [] \<or> strip text = [] then Inl (ValueError ''Text cannot be empty'')
          else encode (preprocess_for_embedding (soup_get_text (e_service env)) text))"

definition search_similar_embeddings ::
  "'w env \<Rightarrow> 'w \<Rightarrow> real list \<Rightarrow> nat \<Rightarrow> py_error + vector_hit list" where
  "search_similar_embeddings env w query_embedding limit =
     (case e_qdrant_client env of
        None \<Rightarrow> Inl (Exception ''Qdrant client not initialized'')
      | Some client \<Rightarrow> q_search client w query_embedding limit (e_similarity_threshold env))"

definition store_embedding ::
  "'w env \<Rightarrow> 'w \<Rightarrow> int \<Rightarrow> real list \<Rightarrow> embedding_metadata \<Rightarrow> (py_error + unit) \<times> 'w" where
  "store_embedding env w claim_id embedding metadata =
     (case e_qdrant_client env of
        None \<Rightarrow> (Inl (Exception ''Qdrant client not initialized''), w)
      | Some client \<Rightarrow> q_upsert client w claim_id embedding metadata)"

subsection \<open>Keyword search\<close>

text \<open>\<open>sum(1 for keyword in keywords if keyword.lower() in text)\<close>.\<close>

definition keyword_hits :: "string list \<Rightarrow> string \<Rightarrow> nat" where
  "keyword_hits kws text = length (filter (\<lambda>k. str_in (lower k) text) kws)"

text \<open>\<open>xs.sort(key=..., reverse=True)\<close>: stable, largest key first.\<close>

definition sort_desc :: "('a \<Rightarrow> real) \<Rightarrow> 'a list \<Rightarrow> 'a list" where
  "sort_desc key xs = sort_key (\<lambda>x. - key x) xs"

definition keyword_search :: "'w env \<Rightarrow> 'w \<Rightarrow> string \<Rightarrow> nat \<Rightarrow> keyword_match list" where
  "keyword_search env w claim limit =
     (let kws = extract_keywords (soup_get_text (e_service env)) claim 5
      in if kws = [] then []
         else
           (case e_query_fact_sources env w of
              Inl e \<Rightarrow> []
            | Inr fact_sources \<Rightarrow>
                (let scored =
                       map (\<lambda>src. (src,
                              keyword_hits kws (lower (fs_title src @ '' '' @ fs_content src))))
                           fact_sources;
                     keyword_matches =
                       map (\<lambda>(src, keyword_score).
                              \<lparr> km_id = fs_id src,
                                km_score = real keyword_score / real (length kws),
                                km_source = src \<rparr>)
                           (filter (\<lambda>(src, keyword_score). keyword_score > 0) scored)
                 in take limit (sort_desc km_score keyword_matches))))"

subsection \<open>Fusion and re-ranking\<close>

text \<open>
  \<open>d[k] = v\<close> on a dictionary that keeps insertion order: a present key keeps its place,
  a new key goes to the end.
\<close>

fun dict_set :: "'k \<Rightarrow> 'v \<Rightarrow> ('k \<times> 'v) list \<Rightarrow> ('k \<times> 'v) list" where
  "dict_set k v [] = [(k, v)]"
| "dict_set k v (p # ps) = (if fst p = k then (k, v) # ps else p # dict_set k v ps)"

definition add_vector_result :: "(int \<times> unified) list \<Rightarrow> vector_hit \<Rightarrow> (int \<times> unified) list" where
  "add_vector_result unified_results result =
     dict_set (vh_id result)
       \<lparr> u_id = vh_id result,
         u_vector_score = vh_score result,
         u_keyword_score = 0,
         u_payload = Some (vh_payload result),
         u_source = None,
         u_match_type = ''vector'' \<rparr>
       unified_results"

definition add_keyword_result ::
  "(int \<times> unified) list \<Rightarrow> keyword_match \<Rightarrow> (int \<times> unified) list" where
  "add_keyword_result unified_results result =
     (case map_of unified_results (km_id result) of
        Some u \<Rightarrow>
          dict_set (km_id result)
            (u\<lparr> u_keyword_score := km_score result, u_match_type := ''hybrid'' \<rparr>)
            unified_results
      | None \<Rightarrow>
          dict_set (km_id result)
            \<lparr> u_id = km_id result,
              u_vector_score = 0,
              u_keyword_score = km_score result,
              u_payload = None,
              u_source = Some (km_source result),
              u_match_type = ''keyword'' \<rparr>
            unified_results)"

text \<open>\<open>payload.get(key, default)\<close>.\<close>

definition payload_get :: "(string \<times> string) list \<Rightarrow> string \<Rightarrow> string \<Rightarrow> string" where
  "payload_get payload k dflt = (case map_of payload k of Some v \<Rightarrow> v | None \<Rightarrow> dflt)"

definition hybrid_score_of :: "unified \<Rightarrow> real" where
  "hybrid_score_of result = 0.7 * u_vector_score result + 0.3 * u_keyword_score result"

definition format_result :: "int \<times> unified \<Rightarrow> evidence" where
  "format_result entry =
     (let source_id = fst entry;
          result = snd entry;
          hybrid_score = hybrid_score_of result;
          info =
            (case u_source result of
               Some source \<Rightarrow>
                 (fs_title source, fs_content source, fs_source_name source, fs_source_url source)
             | None \<Rightarrow>
                 (let payload = (case u_payload result of Some pl \<Rightarrow> pl | None \<Rightarrow> [])
                  in (payload_get payload ''title'' ''Unknown'',
                      payload_get payload ''content'' [],
                      payload_get payload ''source_name'' ''Unknown'',
                      payload_get payload ''source_url'' [])))
      in (case info of
            (title, content, source_name, source_url) \<Rightarrow>
              \<lparr> ev_source_id = source_id,
                ev_hybrid_score = hybrid_score,
                ev_vector_score = u_vector_score result,
                ev_keyword_score = u_keyword_score result,
                ev_match_type = u_match_type result,
                ev_title = title,
                ev_content = content,
                ev_source_name = source_name,
                ev_source_url = source_url \<rparr>))"

definition combine_and_rerank ::
  "string \<Rightarrow> vector_hit list \<Rightarrow> keyword_match list \<Rightarrow> nat \<Rightarrow> evidence list" where
  "combine_and_rerank claim vector_results keyword_results max_results =
     (let unified0 = foldl add_vector_result [] vector_results;
          unified_results = foldl add_keyword_result unified0 keyword_results;
          final_results = map format_result unified_results
      in take max_results (sort_desc ev_hybrid_score final_results))"

subsection \<open>\<open>retrieve_evidence\<close>\<close>

text \<open>The whole body is one \<open>try\<close>; any exception gives the empty list.\<close>

definition retrieve_evidence :: "'w env \<Rightarrow> 'w \<Rightarrow> string \<Rightarrow> nat \<Rightarrow> evidence list" where
  "retrieve_evidence env w claim max_results =
     (case generate_embedding env claim of
        Inl e \<Rightarrow> []
      | Inr claim_embedding \<Rightarrow>
          (case search_similar_embeddings env w claim_embedding (max_results * 2) of
             Inl e \<Rightarrow> []
           | Inr vector_results \<Rightarrow>
               (let keyword_results = keyword_search env w claim (max_results * 2)
                in combine_and_rerank claim vector_results keyword_results max_results)))"

subsection \<open>Snippets\<close>

text \<open>The sentences of a source that contain a claim keyword, each with its count.\<close>

definition relevant_sentences :: "string list \<Rightarrow> string \<Rightarrow> (string \<times> nat) list" where
  "relevant_sentences claim_keywords content =
     filter (\<lambda>(sentence, keyword_matches). keyword_matches > 0)
       (map (\<lambda>sentence. (sentence, keyword_hits claim_keywords (lower sentence)))
            (extract_sentences content))"

definition truncate :: "nat \<Rightarrow> string \<Rightarrow> string" where
  "truncate max_snippet_length snippet_text =
     (if length snippet_text > max_snippet_length
      then take max_snippet_length snippet_text @ ''...''
      else snippet_text)"

text \<open>The snippet of one source, if it gives one.\<close>

definition snippet_of :: "string list \<Rightarrow> nat \<Rightarrow> evidence \<Rightarrow> string option" where
  "snippet_of claim_keywords max_snippet_length source =
     (let content = ev_content source
      in if content = [] then None
         else
           (case sort_desc (\<lambda>x. real (snd x)) (relevant_sentences claim_keywords content) of
              [] \<Rightarrow> None
            | best # _ \<Rightarrow> Some (truncate max_snippet_length (fst best))))"

definition extract_evidence_snippets ::
  "(string \<Rightarrow> string) \<Rightarrow> string \<Rightarrow> evidence list \<Rightarrow> nat \<Rightarrow> string list" where
  "extract_evidence_snippets get_text claim retrieved_sources max_snippet_length =
     (let claim_keywords = extract_keywords get_text claim 3
      in List.map_filter (snippet_of claim_keywords max_snippet_length) retrieved_sources)"

section \<open>The analysis service (\<open>analysis_service.py\<close>)\<close>

text \<open>The handler of the outer \<open>try\<close> of \<open>analyze_claim\<close>.\<close>

definition analysis_failed ::
  "'w env \<Rightarrow> 'w \<Rightarrow> int option \<Rightarrow> string \<Rightarrow> string option \<Rightarrow> py_error \<Rightarrow> analysis_result \<times> 'w" where
  "analysis_failed env w claim_id claim_text source_url e =
     (let processing_time = e_elapsed_ms env w;
          error_msg = ''Analysis failed: '' @ str_of_error e;
          w' = (case claim_id of
                  None \<Rightarrow> w
                | Some i \<Rightarrow>
                    if i \<noteq> 0
                    then e_log_processing env w i ''analysis_failed'' ''error''
                           (ErrorDetails error_msg) processing_time
                    else w)
      in (\<lparr> r_claim_id = claim_id,
            r_claim = claim_text,
            r_classification = ''Unverified'',
            r_reliability = 0,
            r_confidence = 0,
            r_evidence = [],
            r_reasoning = error_msg,
            r_source_url = source_url,
            r_processing_time_ms = processing_time,
            r_evidence_sources = [] \<rparr>, w'))"

definition summary_of :: "evidence \<Rightarrow> source_summary" where
  "summary_of source =
     \<lparr> ss_title = ev_title source,
       ss_source_name = ev_source_name source,
       ss_source_url = ev_source_url source,
       ss_relevance_score = ev_hybrid_score source \<rparr>"

text \<open>Step 8: the update of the claim's row; a failure is logged and passed over.\<close>

definition update_step ::
  "'w env \<Rightarrow> 'w \<Rightarrow> int \<Rightarrow> pydict \<Rightarrow> string list \<Rightarrow> 'w" where
  "update_step env w claim_id classification_result evidence_snippets =
     (case get_str classification_result ''classification'' of
        Inl e \<Rightarrow> w
      | Inr classification \<Rightarrow>
          (case get_num classification_result ''reliability_score'' of
             Inl e \<Rightarrow> w
           | Inr reliability_score \<Rightarrow>
               snd (e_update_claim_results env w claim_id classification reliability_score
                      evidence_snippets)))"

text \<open>Step 9: the response, read from the classification result.\<close>

definition response_of ::
  "int \<Rightarrow> string \<Rightarrow> string option \<Rightarrow> pydict \<Rightarrow> string list \<Rightarrow> evidence list \<Rightarrow> int
     \<Rightarrow> py_error + analysis_result" where
  "response_of claim_id claim_text source_url classification_result evidence_snippets
     evidence_sources processing_time =
     (case get_str classification_result ''classification'' of
        Inl e \<Rightarrow> Inl e
      | Inr classification \<Rightarrow>
     (case get_num classification_result ''reliability_score'' of
        Inl e \<Rightarrow> Inl e
      | Inr reliability \<Rightarrow>
     (case get_num classification_result ''confidence'' of
        Inl e \<Rightarrow> Inl e
      | Inr confidence \<Rightarrow>
     (case get_str classification_result ''reasoning'' of
        Inl e \<Rightarrow> Inl e
      | Inr reasoning \<Rightarrow>
          Inr \<lparr> r_claim_id = Some claim_id,
                r_claim = claim_text,
                r_classification = classification,
                r_reliability = reliability,
                r_confidence = confidence,
                r_evidence = evidence_snippets,
                r_reasoning = reasoning,
                r_source_url = source_url,
                r_processing_time_ms = processing_time,
                r_evidence_sources = map summary_of evidence_sources \<rparr>))))"

text \<open>
  \<open>analyze_claim\<close>. Every path ends in a \<open>return\<close>, the last one in the handler of the
  outer \<open>try\<close>; the result type keeps the exception side for the caller's own \<open>try\<close>.
\<close>

definition analyze_claim ::
  "'w env \<Rightarrow> 'w \<Rightarrow> string \<Rightarrow> string option \<Rightarrow> (py_error + analysis_result) \<times> 'w" where
  "analyze_claim env w claim_text source_url =
     (let finish = (\<lambda>rw. (Inr (fst rw), snd rw))
      in
      if claim_text = [] \<or> strip claim_text = []
      then finish (analysis_failed env w None claim_text source_url
                     (ValueError ''Claim text cannot be empty''))
      else
        (case e_store_claim env w claim_text source_url of
           (Inl e, w1) \<Rightarrow>
             finish (analysis_failed env w1 None claim_text source_url
                       (Exception (''Database error: '' @ str_of_error e)))
         | (Inr claim_rec, w1) \<Rightarrow>
             (let claim_id = cr_id claim_rec;
                  feats = extract_claim_features (soup_get_text (e_service env)) claim_text
              in (case generate_embedding env claim_text of
                    Inl e \<Rightarrow>
                      finish (analysis_failed env w1 (Some claim_id) claim_text source_url
                                (Exception (''Embedding generation error: '' @ str_of_error e)))
                  | Inr claim_embedding \<Rightarrow>
                      (let metadata =
                             \<lparr> md_claim_id = claim_id,
                               md_text = claim_text,
                               md_source_url = source_url,
                               md_word_count = f_word_count feats,
                               md_created_at = cr_created_at claim_rec \<rparr>;
                           w2 = snd (store_embedding env w1 claim_id claim_embedding metadata);
                           evidence_sources = retrieve_evidence env w2 claim_text 5;
                           evidence_snippets =
                             extract_evidence_snippets (soup_get_text (e_service env))
                               claim_text evidence_sources 200;
                           classification_result =
                             classify_claim (e_service env) claim_text (Some evidence_snippets);
                           w3 = update_step env w2 claim_id classification_result
                                  evidence_snippets;
                           processing_time = e_elapsed_ms env w3
                       in (case response_of claim_id claim_text source_url
                                  classification_result evidence_snippets evidence_sources
                                  processing_time of
                             Inl e \<Rightarrow>
                               finish (analysis_failed env w3 (Some claim_id) claim_text
                                         source_url e)
                           | Inr result \<Rightarrow>
                               (Inr result,
                                e_log_processing env w3 claim_id ''analysis_complete''
                                  ''success'' (ResultDetails result) processing_time)))))))"

text \<open>\<open>claim_data.get("text", "")\<close> and \<open>claim_data.get("source_url")\<close>.\<close>

definition claim_text_of :: "(string \<times> string) list \<Rightarrow> string" where
  "claim_text_of claim_data = payload_get claim_data ''text'' []"

definition source_url_of :: "(string \<times> string) list \<Rightarrow> string option" where
  "source_url_of claim_data = map_of claim_data ''source_url''"

definition degraded :: "string \<Rightarrow> string option \<Rightarrow> string \<Rightarrow> degraded_result" where
  "degraded claim_text source_url reasoning =
     \<lparr> d_claim = claim_text,
       d_classification = ''Unverified'',
       d_reliability = 0,
       d_evidence = [],
       d_reasoning = reasoning,
       d_source_url = source_url \<rparr>"

text \<open>
  One round of the loop of \<open>analyze_claims_batch\<close>: the dictionary appended to
  \<open>results\<close> and the state after it.
\<close>

definition batch_step :: "'w env \<Rightarrow> 'w \<Rightarrow> (string \<times> string) list \<Rightarrow> batch_item \<times> 'w" where
  "batch_step env w claim_data =
     (let claim_text = claim_text_of claim_data;
          source_url = source_url_of claim_data
      in if strip claim_text = []
         then (Degraded (degraded claim_text source_url ''Empty claim text''), w)
         else
           (case analyze_claim env w claim_text source_url of
              (Inr result, w') \<Rightarrow> (Analysed result, w')
            | (Inl e, w') \<Rightarrow>
                (Degraded (degraded claim_text source_url
                             (''Analysis error: '' @ str_of_error e)), w')))"

text \<open>The loop, with \<open>results\<close> as it grows.\<close>

fun batch_loop ::
  "'w env \<Rightarrow> 'w \<Rightarrow> batch_item list \<Rightarrow> (string \<times> string) list list \<Rightarrow> batch_item list \<times> 'w" where
  "batch_loop env w results [] = (results, w)"
| "batch_loop env w results (claim_data # rest) =
     (case batch_step env w claim_data of
        (item, w') \<Rightarrow> batch_loop env w' (results @ [item]) rest)"

definition analyze_claims_batch ::
  "'w env \<Rightarrow> 'w \<Rightarrow> (string \<times> string) list list \<Rightarrow> batch_item list \<times> 'w" where
  "analyze_claims_batch env w claims = batch_loop env w [] claims"

text \<open>The claim text that a result carries under the key \<open>"claim"\<close>.\<close>

definition item_claim :: "batch_item \<Rightarrow> string" where
  "item_claim item = (case item of Analysed r \<Rightarrow> r_claim r | Degraded d \<Rightarrow> d_claim d)"

section \<open>A service for the worked examples\<close>

text \<open>
  The examples below run the model on texts without markup, on which \<open>get_text\<close>
  returns its argument, and print numbers with one decimal.
\<close>

function show_nat :: "nat \<Rightarrow> string" where
  "show_nat n =
     (if n < 10 then [char_of (48 + n)]
      else show_nat (n div 10) @ [char_of (48 + n mod 10)])"
  by pat_completeness auto
termination
  by (relation "measure id") auto

declare show_nat.simps [simp del]

definition example_format_1f :: "real \<Rightarrow> string" where
  "example_format_1f x =
     (let tenths = nat \<lfloor>\<bar>x\<bar> * 10 + 1 / 2\<rfloor>
      in (if x < 0 \<and> tenths > 0 then ''-'' else [])
         @ show_nat (tenths div 10) @ ''.'' @ show_nat (tenths mod 10))"

definition example_service :: "(string \<Rightarrow> py_error + sentiment list) option \<Rightarrow> service" where
  "example_service clf =
     \<lparr> soup_get_text = (\<lambda>text. text),
       format_1f = example_format_1f,
       format_signed_1f = (\<lambda>x. (if x \<ge> 0 then ''+'' else []) @ example_format_1f x),
       classifier = clf \<rparr>"

text \<open>A sentiment pipeline that answers every text with the one given item.\<close>

definition example_classifier :: "sentiment \<Rightarrow> string \<Rightarrow> py_error + sentiment list" where
  "example_classifier item processed_claim = Inr [item]"

text \<open>
  An environment for the examples: a given embedding model, a vector store that answers
  every search with the given hits, a table of fact sources, and a database whose
  writes succeed.
\<close>

definition example_encoder :: "string \<Rightarrow> py_error + real list" where
  "example_encoder processed_text = Inr [real (length processed_text), 1]"

definition example_qdrant :: "vector_hit list \<Rightarrow> unit qdrant" where
  "example_qdrant hits =
     \<lparr> q_search = (\<lambda>w query_vector limit score_threshold. Inr (take limit hits)),
       q_upsert = (\<lambda>w claim_id embedding metadata. (Inr (), w)) \<rparr>"

definition example_env ::
  "(string \<Rightarrow> py_error + real list) option \<Rightarrow> vector_hit list \<Rightarrow> fact_source list \<Rightarrow> unit env" where
  "example_env model hits sources =
     \<lparr> e_service = example_service None,
       e_embedding_model = model,
       e_qdrant_client = Some (example_qdrant hits),
       e_similarity_threshold = 0.7,
       e_query_fact_sources = (\<lambda>w. Inr sources),
       e_store_claim = (\<lambda>w claim_text source_url.
          (Inr \<lparr> cr_id = 1, cr_created_at = ''2024-01-01T00:00:00'' \<rparr>, w)),
       e_update_claim_results = (\<lambda>w claim_id classification reliability_score evidence.
          (Inr (), w)),
       e_log_processing = (\<lambda>w claim_id operation status details processing_time_ms. w),
       e_elapsed_ms = (\<lambda>w. 0) \<rparr>"

definition cat_source :: fact_source where
  "cat_source =
     \<lparr> fs_id = 2, fs_title = ''Cats'', fs_content = ''Cats purr when content.'',
       fs_source_name = ''Vet'', fs_source_url = [] \<rparr>"

text \<open>
  An environment whose database session behaves as a SQLAlchemy session on PostgreSQL
  does. The state says whether the session waits for a rollback. The column
  \<open>claims.source_url\<close> is declared \<open>String(1000)\<close> in \<open>models/database.py\<close>, so the commit of
  \<open>store_claim\<close> fails for a longer URL; after a failed commit every operation of the
  session raises until \<open>rollback()\<close> is called, which no function of the services does.
  The two error texts stand for the messages of the driver and of the library. The
  sentiment pipeline answers with a neutral item, the vector store holds nothing and the
  table of fact sources is empty.
\<close>

definition session_env :: "bool env" where
  "session_env =
     \<lparr> e_service =
         example_service (Some (example_classifier \<lparr> label = ''LABEL_1'', score = 1 / 2 \<rparr>)),
       e_embedding_model = Some example_encoder,
       e_qdrant_client =
         Some \<lparr> q_search = (\<lambda>needs_rollback query_vector limit score_threshold. Inr []),
                q_upsert = (\<lambda>needs_rollback claim_id embedding metadata.
                              (Inr (), needs_rollback)) \<rparr>,
       e_similarity_threshold = 0.7,
       e_query_fact_sources = (\<lambda>needs_rollback.
          if needs_rollback then Inl (Exception ''PendingRollbackError'') else Inr []),
       e_store_claim = (\<lambda>needs_rollback claim_text source_url.
          if needs_rollback then (Inl (Exception ''PendingRollbackError''), True)
          else if (case source_url of None \<Rightarrow> False | Some url \<Rightarrow> length url > 1000)
          then (Inl (Exception ''value too long for type character varying(1000)''), True)
          else (Inr \<lparr> cr_id = 1, cr_created_at = ''2024-01-01T00:00:00'' \<rparr>, False)),
       e_update_claim_results =
         (\<lambda>needs_rollback claim_id classification reliability_score evidence.
            if needs_rollback then (Inl (Exception ''PendingRollbackError''), True)
            else (Inr (), False)),
       e_log_processing =
         (\<lambda>needs_rollback claim_id operation status details processing_time_ms.
            needs_rollback),
       e_elapsed_ms = (\<lambda>needs_rollback. 0) \<rparr>"

text \<open>A retrieved source with the given content.\<close>

definition example_evidence :: "string \<Rightarrow> evidence" where
  "example_evidence content =
     \<lparr> ev_source_id = 1, ev_hybrid_score = 0.7, ev_vector_score = 1, ev_keyword_score = 0,
       ev_match_type = ''vector'', ev_title = ''Unknown'', ev_content = content,
       ev_source_name = ''Unknown'', ev_source_url = [] \<rparr>"

section \<open>Properties of the classification service\<close>

subsection \<open>Labels and bands\<close>

lemma relabel_generic:
  fixes f :: real and c T F M U :: string
  assumes d: "T \<noteq> F" "T \<noteq> M" "T \<noteq> U" "F \<noteq> M" "F \<noteq> U" "M \<noteq> U"
  defines "r \<equiv> (if f \<ge> 70 \<and> c \<noteq> T then T
      else if f < 20 \<and> c \<noteq> F then F
      else if 20 \<le> f \<and> f < 40 \<and> c \<notin> set [M, F] then M
      else if 40 \<le> f \<and> f < 70 \<and> c \<notin> set [U, T] then U
      else c)"
    and "b \<equiv> (if f \<ge> 70 then T else if f \<ge> 40 then U else if f \<ge> 20 then M else F)"
  shows "(r \<noteq> c) \<longleftrightarrow>
           (f \<ge> 70 \<and> c \<noteq> T) \<or> (f < 20 \<and> c \<noteq> F)
           \<or> (20 \<le> f \<and> f < 40 \<and> c \<noteq> M \<and> c \<noteq> F)
           \<or> (40 \<le> f \<and> f < 70 \<and> c \<noteq> U \<and> c \<noteq> T)"
    and "r \<noteq> c \<longrightarrow> r = b"
  using d unfolding r_def b_def by auto

lemma recalculate_changes:
  "(recalculate f c \<noteq> c) \<longleftrightarrow>
           (f \<ge> 70 \<and> c \<noteq> ''True'') \<or> (f < 20 \<and> c \<noteq> ''False'')
           \<or> (20 \<le> f \<and> f < 40 \<and> c \<noteq> ''Misleading'' \<and> c \<noteq> ''False'')
           \<or> (40 \<le> f \<and> f < 70 \<and> c \<noteq> ''Unverified'' \<and> c \<noteq> ''True'')"
  unfolding recalculate_def
  by (rule relabel_generic(1)) simp_all

lemma recalculate_band:
  "recalculate f c \<noteq> c \<longrightarrow> recalculate f c = classification_of_score f"
  unfolding recalculate_def classification_of_score_def
  by (rule relabel_generic(2)) simp_all

lemma combine_ok:
  assumes "get_num h ''score'' = Inr b" and "get_str h ''classification'' = Inr c"
    and "get_str h ''reasoning'' = Inr r"
  shows "\<exists>res. combine_analysis_results svc h sr = Inr res
     \<and> get_num res ''reliability_score'' = Inr (max 0 (min 100 (b + adjustment_of sr)))
     \<and> get_num res ''confidence'' = Inr (min (score sr * 100) 95)
     \<and> get_str res ''classification''
         = Inr (recalculate (max 0 (min 100 (b + adjustment_of sr))) c)"
  using assms
  by (simp add: combine_analysis_results_def Let_def get_num_def get_str_def getitem_def)

text \<open>
  C6. The dictionary that \<open>_analyze_claim_heuristics\<close> returns carries a score \<open>s\<close> and a
  label, and the label is \<open>True\<close> exactly when \<open>s \<ge> 70\<close>, \<open>Unverified\<close> exactly when
  \<open>40 \<le> s < 70\<close>, \<open>Misleading\<close> exactly when \<open>20 \<le> s < 40\<close> and \<open>False\<close> exactly when
  \<open>s < 20\<close>. The label is taken from the running score and \<open>s\<close> is that score clamped
  to \<open>[0, 100]\<close>; the clamp does not move a score across a threshold.
\<close>

theorem heuristic_label_bands:
  "\<exists>s l. get_num (analyze_claim_heuristics svc claim ev) ''score'' = Inr s
     \<and> get_str (analyze_claim_heuristics svc claim ev) ''classification'' = Inr l
     \<and> (l = ''True'' \<longleftrightarrow> s \<ge> 70)
     \<and> (l = ''Unverified'' \<longleftrightarrow> 40 \<le> s \<and> s < 70)
     \<and> (l = ''Misleading'' \<longleftrightarrow> 20 \<le> s \<and> s < 40)
     \<and> (l = ''False'' \<longleftrightarrow> s < 20)"
  by (auto simp add: analyze_claim_heuristics_def get_num_def get_str_def getitem_def Let_def
        classification_of_score_def)

subsection \<open>Fusion\<close>

text \<open>
  C1, as the specification states it, fails: a heuristic result with label \<open>True\<close> and
  score 70, fused with a negative signal of confidence 1, gets the score 65, which
  lies in the band of \<open>Unverified\<close>, and keeps the label \<open>True\<close>.
\<close>

theorem fusion_keeps_true_counterexample:
  "combine_analysis_results (example_service None)
     [(''classification'', Str ''True''), (''score'', Num 70),
      (''reasoning'', Str ''Contains scientific language'')]
     \<lparr> label = ''LABEL_0'', score = 1 \<rparr>
   = Inr [(''classification'', Str ''True''),
          (''reliability_score'', Num 65),
          (''confidence'', Num 95),
          (''reasoning'',
           Str ''Contains scientific language; Sentiment analysis adjustment: -5.0'')]
   \<and> classification_of_score 65 = ''Unverified''"
  by code_simp

text \<open>
  C1, amended. For a heuristic result with score \<open>b\<close> and label \<open>c\<close>, the fusion adds
  \<open>-5 \<times> confidence\<close> for the label \<open>LABEL_0\<close> (negative), \<open>+2 \<times> confidence\<close> for \<open>LABEL_2\<close>
  (positive) and nothing otherwise, and clamps the sum to \<open>[0, 100]\<close>. The label
  changes exactly when the adjusted score is at least 70 and the label is not \<open>True\<close>,
  or below 20 and the label is not \<open>False\<close>, or in \<open>[20, 40)\<close> and the label is neither
  \<open>Misleading\<close> nor \<open>False\<close>, or in \<open>[40, 70)\<close> and the label is neither \<open>Unverified\<close> nor
  \<open>True\<close>; a label that changes becomes the label of the band of the adjusted score.
\<close>

theorem fusion_adjustment_and_label:
  assumes "get_num h ''score'' = Inr b" and "get_str h ''classification'' = Inr c"
    and "get_str h ''reasoning'' = Inr r"
  shows "\<exists>res final c'. combine_analysis_results svc h sr = Inr res
     \<and> final = max 0 (min 100 (b + (if label sr = ''LABEL_0'' then - 5 * score sr
                                    else if label sr = ''LABEL_2'' then 2 * score sr else 0)))
     \<and> get_num res ''reliability_score'' = Inr final
     \<and> get_str res ''classification'' = Inr c'
     \<and> (c' \<noteq> c \<longleftrightarrow>
           (final \<ge> 70 \<and> c \<noteq> ''True'') \<or> (final < 20 \<and> c \<noteq> ''False'')
           \<or> (20 \<le> final \<and> final < 40 \<and> c \<noteq> ''Misleading'' \<and> c \<noteq> ''False'')
           \<or> (40 \<le> final \<and> final < 70 \<and> c \<noteq> ''Unverified'' \<and> c \<noteq> ''True''))
     \<and> (c' \<noteq> c \<longrightarrow> c' = classification_of_score final)"
proof -
  let ?f = "max 0 (min 100 (b + adjustment_of sr))"
  from combine_ok [OF assms, of svc sr] obtain res where
    res: "combine_analysis_results svc h sr = Inr res"
      "get_num res ''reliability_score'' = Inr ?f"
      "get_str res ''classification'' = Inr (recalculate ?f c)" by blast
  have adj: "adjustment_of sr = (if label sr = ''LABEL_0'' then - 5 * score sr
                                    else if label sr = ''LABEL_2'' then 2 * score sr else 0)"
    by (simp add: adjustment_of_def)
  show ?thesis
    apply (rule exI [of _ res], rule exI [of _ ?f], rule exI [of _ "recalculate ?f c"])
    apply (intro conjI)
         apply (rule res(1))
        apply (simp only: adj)
       apply (rule res(2))
      apply (rule res(3))
     apply (rule recalculate_changes)
    apply (rule recalculate_band)
    done
qed

theorem fusion_adjustment_and_label_witness:
  "get_num [(''classification'', Str ''True''), (''score'', Num 70),
            (''reasoning'', Str ''Contains scientific language'')] ''score'' = Inr 70
   \<and> get_str [(''classification'', Str ''True''), (''score'', Num 70),
            (''reasoning'', Str ''Contains scientific language'')] ''classification'' = Inr ''True''
   \<and> get_str [(''classification'', Str ''True''), (''score'', Num 70),
            (''reasoning'', Str ''Contains scientific language'')] ''reasoning''
        = Inr ''Contains scientific language''
   \<and> (\<exists>res. combine_analysis_results (example_service None)
          [(''classification'', Str ''True''), (''score'', Num 70),
           (''reasoning'', Str ''Contains scientific language'')]
          \<lparr> label = ''LABEL_0'', score = 1 \<rparr> = Inr res
        \<and> get_num res ''reliability_score'' = Inr 65
        \<and> get_str res ''classification'' = Inr ''True'')"
proof -
  let ?h = "[(''classification'', Str ''True''), (''score'', Num 70),
            (''reasoning'', Str ''Contains scientific language'')]"
  have a: "get_num ?h ''score'' = Inr 70" by (simp add: get_num_def getitem_def)
  have b: "get_str ?h ''classification'' = Inr ''True''" by (simp add: get_str_def getitem_def)
  have c: "get_str ?h ''reasoning'' = Inr ''Contains scientific language''"
    by (simp add: get_str_def getitem_def)
  from fusion_adjustment_and_label [OF a b c, of "example_service None" "\<lparr> label = ''LABEL_0'', score = 1 \<rparr>"]
  obtain res final c' where r: "combine_analysis_results (example_service None) ?h
          \<lparr> label = ''LABEL_0'', score = 1 \<rparr> = Inr res"
     "final = max 0 (min 100 (70 + (if label \<lparr> label = ''LABEL_0'', score = 1 \<rparr> = ''LABEL_0'' then - 5 * score \<lparr> label = ''LABEL_0'', score = 1::real \<rparr>
                                    else if label \<lparr> label = ''LABEL_0'', score = 1::real \<rparr> = ''LABEL_2'' then 2 * score \<lparr> label = ''LABEL_0'', score = 1::real \<rparr> else 0)))"
     "get_num res ''reliability_score'' = Inr final"
     "get_str res ''classification'' = Inr c'"
     "(c' \<noteq> ''True'' \<longleftrightarrow>
           (final \<ge> 70 \<and> ''True'' \<noteq> ''True'') \<or> (final < 20 \<and> ''True'' \<noteq> ''False'')
           \<or> (20 \<le> final \<and> final < 40 \<and> ''True'' \<noteq> ''Misleading'' \<and> ''True'' \<noteq> ''False'')
           \<or> (40 \<le> final \<and> final < 70 \<and> ''True'' \<noteq> ''Unverified'' \<and> ''True'' \<noteq> ''True''))"
    by blast
  have f: "final = 65" using r(2) by simp
  have "c' = ''True''" using r(5) unfolding f by simp
  then show ?thesis using a b c r(1,3,4) f by blast
qed

subsection \<open>The shape of the results\<close>

lemma heuristics_shape:
  "\<exists>r. analyze_claim_heuristics svc p ev =
     [(''classification'', Str (classification_of_score (heuristic_score svc p ev))),
      (''score'', Num (max 0 (min 100 (heuristic_score svc p ev)))),
      (''reasoning'', Str r)]"
  by (simp add: analyze_claim_heuristics_def heuristic_score_def Let_def)

lemma heuristics_keys:
  "get_num (analyze_claim_heuristics svc p ev) ''score'' = Inr (max 0 (min 100 (heuristic_score svc p ev)))"
  "get_str (analyze_claim_heuristics svc p ev) ''classification''
     = Inr (classification_of_score (heuristic_score svc p ev))"
  "\<exists>r. get_str (analyze_claim_heuristics svc p ev) ''reasoning'' = Inr r"
  "getitem (analyze_claim_heuristics svc p ev) ''classification''
     = Inr (Str (classification_of_score (heuristic_score svc p ev)))"
  "get_num (analyze_claim_heuristics svc p ev) ''reliability_score'' = Inl (KeyError ''reliability_score'')"
  "map_of (analyze_claim_heuristics svc p ev) ''score'' \<noteq> None"
  "map_of (analyze_claim_heuristics svc p ev) ''reliability_score'' = None"
  "map_of (analyze_claim_heuristics svc p ev) ''confidence'' = None"
  using heuristics_shape [of svc p ev]
  by (auto simp add: get_num_def get_str_def getitem_def)

lemma combine_shape:
  assumes "get_num h ''score'' = Inr b" and "get_str h ''classification'' = Inr c"
    and "get_str h ''reasoning'' = Inr r"
  shows "\<exists>r'. combine_analysis_results svc h sr =
           Inr [(''classification'', Str (recalculate (max 0 (min 100 (b + adjustment_of sr))) c)),
                (''reliability_score'', Num (max 0 (min 100 (b + adjustment_of sr)))),
                (''confidence'', Num (min (score sr * 100) 95)),
                (''reasoning'', Str r')]"
  using assms by (simp add: combine_analysis_results_def Let_def)

lemma final_result_unavailable:
  assumes "classifier svc = None \<or> (\<exists>clf e. classifier svc = Some clf \<and> first_sentiment clf p = Inl e)"
  shows "final_result_of svc p h = h"
  using assms by (auto simp add: final_result_of_def)

lemma final_result_available:
  assumes "classifier svc = Some clf" and "first_sentiment clf p = Inr sr"
  shows "\<exists>r'. final_result_of svc p (analyze_claim_heuristics svc p ev) =
           [(''classification'', Str (recalculate (max 0 (min 100 (max 0 (min 100 (heuristic_score svc p ev)) + adjustment_of sr)))
                                       (classification_of_score (heuristic_score svc p ev)))),
            (''reliability_score'', Num (max 0 (min 100 (max 0 (min 100 (heuristic_score svc p ev)) + adjustment_of sr)))),
            (''confidence'', Num (min (score sr * 100) 95)),
            (''reasoning'', Str r')]"
proof -
  obtain r where r: "get_str (analyze_claim_heuristics svc p ev) ''reasoning'' = Inr r"
    using heuristics_keys(3) by blast
  from combine_shape [OF heuristics_keys(1) heuristics_keys(2) r, of svc sr]
  obtain r' where "combine_analysis_results svc (analyze_claim_heuristics svc p ev) sr =
           Inr [(''classification'', Str (recalculate (max 0 (min 100 (max 0 (min 100 (heuristic_score svc p ev)) + adjustment_of sr)))
                                       (classification_of_score (heuristic_score svc p ev)))),
            (''reliability_score'', Num (max 0 (min 100 (max 0 (min 100 (heuristic_score svc p ev)) + adjustment_of sr)))),
            (''confidence'', Num (min (score sr * 100) 95)),
            (''reasoning'', Str r')]" by blast
  then show ?thesis using assms by (simp add: final_result_of_def)
qed

lemma body_blank:
  assumes "strip (preprocess_for_embedding (soup_get_text svc) t) = []"
  shows "classify_claim_body svc t ev = Inr (failure_result ''Empty or invalid claim text'')"
  using assms by (simp add: classify_claim_body_def Let_def)

lemma body_unavailable:
  assumes "strip (preprocess_for_embedding (soup_get_text svc) t) \<noteq> []"
    and "classifier svc = None \<or> (\<exists>clf e. classifier svc = Some clf
           \<and> first_sentiment clf (preprocess_for_embedding (soup_get_text svc) t) = Inl e)"
  shows "classify_claim_body svc t ev = Inl (KeyError ''reliability_score'')"
  using assms(1) final_result_unavailable [OF assms(2)]
  by (simp add: classify_claim_body_def Let_def heuristics_keys)

lemma body_available:
  assumes "strip (preprocess_for_embedding (soup_get_text svc) t) \<noteq> []"
    and "classifier svc = Some clf"
    and "first_sentiment clf (preprocess_for_embedding (soup_get_text svc) t) = Inr sr"
  shows "\<exists>r'. classify_claim_body svc t ev =
       Inr [(''classification'',
             Str (recalculate (max 0 (min 100 (max 0 (min 100
                     (heuristic_score svc (preprocess_for_embedding (soup_get_text svc) t) ev)) + adjustment_of sr)))
                   (classification_of_score
                     (heuristic_score svc (preprocess_for_embedding (soup_get_text svc) t) ev)))),
            (''reliability_score'',
             Num (max 0 (min 100 (max 0 (min 100
                     (heuristic_score svc (preprocess_for_embedding (soup_get_text svc) t) ev)) + adjustment_of sr)))),
            (''confidence'', Num (min (score sr * 100) 95)),
            (''reasoning'', Str r')]"
proof -
  from final_result_available [OF assms(2) assms(3), where ev = ev]
  obtain r' where f: "final_result_of svc (preprocess_for_embedding (soup_get_text svc) t)
           (analyze_claim_heuristics svc (preprocess_for_embedding (soup_get_text svc) t) ev) =
           [(''classification'', Str (recalculate (max 0 (min 100 (max 0 (min 100 (heuristic_score svc (preprocess_for_embedding (soup_get_text svc) t) ev)) + adjustment_of sr)))
                                       (classification_of_score (heuristic_score svc (preprocess_for_embedding (soup_get_text svc) t) ev)))),
            (''reliability_score'', Num (max 0 (min 100 (max 0 (min 100 (heuristic_score svc (preprocess_for_embedding (soup_get_text svc) t) ev)) + adjustment_of sr)))),
            (''confidence'', Num (min (score sr * 100) 95)),
            (''reasoning'', Str r')]" by blast
  show ?thesis
    using assms(1) by (simp add: classify_claim_body_def Let_def f get_num_def getitem_def)
qed

subsection \<open>The example claim\<close>

lemma example_preprocessed:
  "preprocess_for_embedding (soup_get_text (example_service clf)) ''Cats purr.'' = ''Cats purr.''"
  unfolding example_service_def by code_simp

lemma example_not_blank: "strip ''Cats purr.'' \<noteq> []"
  by code_simp

lemma example_no_trigger: "lexical_rules (example_service clf) ''Cats purr.'' = (50, [])"
  unfolding example_service_def by code_simp

subsection \<open>\<open>classify_claim\<close>\<close>

lemma failure_result_keys:
  "get_str (failure_result r) ''classification'' = Inr ''Unverified''"
  "get_num (failure_result r) ''reliability_score'' = Inr 0"
  "get_num (failure_result r) ''confidence'' = Inr 0"
  "get_str (failure_result r) ''reasoning'' = Inr r"
  by (simp_all add: failure_result_def get_str_def get_num_def getitem_def)

lemma body_Inr_available:
  assumes "strip (preprocess_for_embedding (soup_get_text svc) t) \<noteq> []"
    and "classify_claim_body svc t ev = Inr res"
  shows "\<exists>clf sr. classifier svc = Some clf
           \<and> first_sentiment clf (preprocess_for_embedding (soup_get_text svc) t) = Inr sr"
proof (cases "classifier svc")
  case None
  then show ?thesis using body_unavailable [OF assms(1), of ev] assms(2) by simp
next
  case (Some clf)
  show ?thesis
  proof (cases "first_sentiment clf (preprocess_for_embedding (soup_get_text svc) t)")
    case (Inl e)
    then have "classifier svc = None \<or> (\<exists>clf e. classifier svc = Some clf
           \<and> first_sentiment clf (preprocess_for_embedding (soup_get_text svc) t) = Inl e)"
      using Some by blast
    from body_unavailable [OF assms(1) this, of ev] assms(2) show ?thesis by simp
  next
    case (Inr sr)
    then show ?thesis using Some by blast
  qed
qed

text \<open>
  C4. When \<open>self.classifier\<close> is \<open>None\<close>, or the sentiment call raises, \<open>classify_claim\<close>
  returns \<open>Unverified\<close> with reliability score 0 and confidence 0, whatever the heuristic
  analysis found. The heuristic dictionary has the key \<open>"score"\<close> and neither
  \<open>"reliability_score"\<close> nor \<open>"confidence"\<close>; for a claim that is not blank after
  preprocessing, the body of the \<open>try\<close> ends in \<open>KeyError('reliability_score')\<close> and the
  handler turns it into the default result.
\<close>

theorem classifier_unavailable_degrades:
  assumes "classifier svc = None \<or> (\<exists>clf e. classifier svc = Some clf
           \<and> first_sentiment clf (preprocess_for_embedding (soup_get_text svc) t) = Inl e)"
  shows "get_str (classify_claim svc t ev) ''classification'' = Inr ''Unverified''
     \<and> get_num (classify_claim svc t ev) ''reliability_score'' = Inr 0
     \<and> get_num (classify_claim svc t ev) ''confidence'' = Inr 0
     \<and> map_of (analyze_claim_heuristics svc (preprocess_for_embedding (soup_get_text svc) t) ev)
          ''score'' \<noteq> None
     \<and> map_of (analyze_claim_heuristics svc (preprocess_for_embedding (soup_get_text svc) t) ev)
          ''reliability_score'' = None
     \<and> map_of (analyze_claim_heuristics svc (preprocess_for_embedding (soup_get_text svc) t) ev)
          ''confidence'' = None
     \<and> (strip (preprocess_for_embedding (soup_get_text svc) t) \<noteq> [] \<longrightarrow>
          classify_claim_body svc t ev = Inl (KeyError ''reliability_score'')
          \<and> classify_claim svc t ev
              = failure_result (''Classification error: '' @ str_of_error (KeyError ''reliability_score'')))"
proof -
  let ?p = "preprocess_for_embedding (soup_get_text svc) t"
  have res: "\<exists>r. classify_claim svc t ev = failure_result r"
  proof (cases "strip ?p = []")
    case True
    then have "classify_claim svc t ev = failure_result ''Empty or invalid claim text''"
      by (simp add: classify_claim_def body_blank)
    then show ?thesis by blast
  next
    case False
    have "classify_claim svc t ev
            = failure_result (''Classification error: '' @ str_of_error (KeyError ''reliability_score''))"
      by (simp add: classify_claim_def body_unavailable [OF False assms])
    then show ?thesis by blast
  qed
  then obtain r where r: "classify_claim svc t ev = failure_result r" by blast
  have last: "strip ?p \<noteq> [] \<longrightarrow>
          classify_claim_body svc t ev = Inl (KeyError ''reliability_score'')
          \<and> classify_claim svc t ev
              = failure_result (''Classification error: '' @ str_of_error (KeyError ''reliability_score''))"
  proof
    assume ne: "strip ?p \<noteq> []"
    show "classify_claim_body svc t ev = Inl (KeyError ''reliability_score'')
          \<and> classify_claim svc t ev
              = failure_result (''Classification error: '' @ str_of_error (KeyError ''reliability_score''))"
      by (simp add: classify_claim_def body_unavailable [OF ne assms])
  qed
  show ?thesis
    unfolding r
    using last heuristics_keys(6-8) [of svc ?p ev]
    by (simp only: failure_result_keys r simp_thms)
qed

text \<open>
  C3. For every claim text and every list of evidence snippets (or none),
  \<open>classify_claim\<close> returns a dictionary with a label, a score in \<open>[0, 100]\<close>, a confidence
  in \<open>[0, 100]\<close> and a reasoning; when the body of its \<open>try\<close> raises \<open>e\<close>, the result is
  \<open>Unverified\<close>, 0, 0 and the reasoning \<open>Classification error: \<close> followed by \<open>str(e)\<close>.
  The sentiment pipeline is taken to report a confidence that is not negative.
\<close>

theorem classify_claim_total_and_bounded:
  assumes "\<And>clf r. classifier svc = Some clf
             \<Longrightarrow> first_sentiment clf (preprocess_for_embedding (soup_get_text svc) t) = Inr r
             \<Longrightarrow> 0 \<le> score r"
  shows "\<exists>l s c r. classify_claim svc t ev =
            [(''classification'', Str l), (''reliability_score'', Num s),
             (''confidence'', Num c), (''reasoning'', Str r)]
          \<and> 0 \<le> s \<and> s \<le> 100 \<and> 0 \<le> c \<and> c \<le> 100
          \<and> (\<forall>e. classify_claim_body svc t ev = Inl e \<longrightarrow>
                 l = ''Unverified'' \<and> s = 0 \<and> c = 0
                 \<and> r = ''Classification error: '' @ str_of_error e)"
proof (cases "classify_claim_body svc t ev")
  case (Inl e)
  then show ?thesis by (simp add: classify_claim_def failure_result_def)
next
  case (Inr res)
  let ?p = "preprocess_for_embedding (soup_get_text svc) t"
  show ?thesis
  proof (cases "strip ?p = []")
    case True
    then show ?thesis by (simp add: classify_claim_def body_blank failure_result_def)
  next
    case False
    from body_Inr_available [OF False Inr]
    obtain clf sr where c: "classifier svc = Some clf" "first_sentiment clf ?p = Inr sr"
      by blast
    from body_available [OF False c, of ev] obtain r' where
      b: "classify_claim_body svc t ev =
       Inr [(''classification'',
             Str (recalculate (max 0 (min 100 (max 0 (min 100 (heuristic_score svc ?p ev)) + adjustment_of sr)))
                   (classification_of_score (heuristic_score svc ?p ev)))),
            (''reliability_score'',
             Num (max 0 (min 100 (max 0 (min 100 (heuristic_score svc ?p ev)) + adjustment_of sr)))),
            (''confidence'', Num (min (score sr * 100) 95)),
            (''reasoning'', Str r')]" by blast
    have "0 \<le> score sr" using assms c by blast
    then have "0 \<le> min (score sr * 100) 95" "min (score sr * 100) 95 \<le> 100" by auto
    then show ?thesis by (simp add: classify_claim_def b)
  qed
qed

lemma rule_nil: "snd (rule fires delta reason st) = [] \<longleftrightarrow> \<not> fires \<and> snd st = []"
  by (simp add: rule_def)

lemma rule_not: "\<not> fires \<Longrightarrow> rule fires delta reason st = st"
  by (simp add: rule_def)

lemma no_trigger_score:
  assumes "snd (lexical_rules svc p) = []"
  shows "fst (lexical_rules svc p) = 50"
  using assms unfolding lexical_rules_def Let_def
  by (simp add: rule_nil rule_not)

lemma no_evidence_heuristic_score:
  assumes "snd (lexical_rules svc p) = []" and "ev = None \<or> ev = Some []"
  shows "heuristic_score svc p ev = 30"
  using no_trigger_score [OF assms(1)] assms(2)
  by (auto simp add: heuristic_score_def evidence_step_def)

text \<open>
  C8, amended. For a claim text that fires none of the nine lexical rules and with no
  evidence snippets, \<open>classify_claim\<close> returns a score of at most 30, or, when the
  sentiment signal is positive (\<open>LABEL_2\<close>), of at most \<open>30 + 2 \<times> confidence\<close>. The sentiment
  pipeline is taken to report a confidence that is not negative.
\<close>

theorem no_evidence_score_bound:
  assumes "snd (lexical_rules svc (preprocess_for_embedding (soup_get_text svc) t)) = []"
    and "ev = None \<or> ev = Some []"
    and "\<And>clf r. classifier svc = Some clf
             \<Longrightarrow> first_sentiment clf (preprocess_for_embedding (soup_get_text svc) t) = Inr r
             \<Longrightarrow> 0 \<le> score r"
  shows "\<exists>s. get_num (classify_claim svc t ev) ''reliability_score'' = Inr s
     \<and> (s \<le> 30 \<or>
         (\<exists>clf r. classifier svc = Some clf
            \<and> first_sentiment clf (preprocess_for_embedding (soup_get_text svc) t) = Inr r
            \<and> label r = ''LABEL_2'' \<and> s \<le> 30 + 2 * score r))"
proof -
  let ?p = "preprocess_for_embedding (soup_get_text svc) t"
  have hs: "heuristic_score svc ?p ev = 30" by (rule no_evidence_heuristic_score [OF assms(1,2)])
  show ?thesis
  proof (cases "classify_claim_body svc t ev")
    case (Inl e)
    then show ?thesis by (simp add: classify_claim_def failure_result_keys)
  next
    case (Inr res)
    show ?thesis
    proof (cases "strip ?p = []")
      case True
      then show ?thesis by (simp add: classify_claim_def body_blank failure_result_keys)
    next
      case False
      from body_Inr_available [OF False Inr]
      obtain clf sr where c: "classifier svc = Some clf" "first_sentiment clf ?p = Inr sr"
        by blast
      from body_available [OF False c, of ev] obtain r' l where
        b: "classify_claim_body svc t ev =
         Inr [(''classification'', Str l),
            (''reliability_score'', Num (max 0 (min 100 (30 + adjustment_of sr)))),
            (''confidence'', Num (min (score sr * 100) 95)),
            (''reasoning'', Str r')]" unfolding hs by auto
      have g: "get_num (classify_claim svc t ev) ''reliability_score''
                = Inr (max 0 (min 100 (30 + adjustment_of sr)))"
        by (simp add: classify_claim_def b get_num_def getitem_def)
      show ?thesis
      proof (cases "label sr = ''LABEL_2''")
        case True
        then have "adjustment_of sr = 2 * score sr" by (simp add: adjustment_of_def)
        then have "max 0 (min 100 (30 + adjustment_of sr)) \<le> 30
                 \<or> max 0 (min 100 (30 + adjustment_of sr)) \<le> 30 + 2 * score sr" by auto
        then show ?thesis using g c True by auto
      next
        case False
        have "0 \<le> score sr" using assms(3) c by blast
        then have "adjustment_of sr \<le> 0" using False by (simp add: adjustment_of_def)
        then have "max 0 (min 100 (30 + adjustment_of sr)) \<le> 30" by auto
        then show ?thesis using g by blast
      qed
    qed
  qed
qed


theorem classifier_unavailable_degrades_witness:
  "classifier (example_service None) = None
   \<and> strip (preprocess_for_embedding (soup_get_text (example_service None)) ''Cats purr.'') \<noteq> []
   \<and> classify_claim_body (example_service None) ''Cats purr.'' (Some []) = Inl (KeyError ''reliability_score'')
   \<and> classify_claim (example_service None) ''Cats purr.'' (Some [])
       = [(''classification'', Str ''Unverified''), (''reliability_score'', Num 0),
          (''confidence'', Num 0),
          (''reasoning'', Str (''Classification error: '' @ [CHR 0x27] @ ''reliability_score'' @ [CHR 0x27]))]"
proof -
  have h: "classifier (example_service None) = None \<or> (\<exists>clf e. classifier (example_service None) = Some clf
           \<and> first_sentiment clf (preprocess_for_embedding (soup_get_text (example_service None)) ''Cats purr.'') = Inl e)"
    by (simp add: example_service_def)
  have ne: "strip (preprocess_for_embedding (soup_get_text (example_service None)) ''Cats purr.'') \<noteq> []"
    by (simp only: example_preprocessed example_not_blank not_False_eq_True)
  show ?thesis
    using classifier_unavailable_degrades [OF h, of "Some []"] ne
    by (simp add: failure_result_def str_of_error_def example_service_def)
qed

theorem classify_claim_total_and_bounded_witness:
  "(\<exists>l s c r. classify_claim (example_service (Some (example_classifier \<lparr> label = ''LABEL_0'', score = 1 / 2 \<rparr>)))
              ''Cats purr.'' (Some []) =
            [(''classification'', Str l), (''reliability_score'', Num s),
             (''confidence'', Num c), (''reasoning'', Str r)]
          \<and> 0 \<le> s \<and> s \<le> 100 \<and> 0 \<le> c \<and> c \<le> 100)
   \<and> get_num (classify_claim (example_service (Some (example_classifier \<lparr> label = ''LABEL_0'', score = 1 / 2 \<rparr>)))
                 ''Cats purr.'' (Some [])) ''reliability_score'' = Inr (55 / 2)
   \<and> get_num (classify_claim (example_service (Some (example_classifier \<lparr> label = ''LABEL_0'', score = 1 / 2 \<rparr>)))
                 ''Cats purr.'' (Some [])) ''confidence'' = Inr 50"
proof -
  let ?svc = "example_service (Some (example_classifier \<lparr> label = ''LABEL_0'', score = 1 / 2 \<rparr>))"
  let ?p = "preprocess_for_embedding (soup_get_text ?svc) ''Cats purr.''"
  have "\<exists>l s c r. classify_claim ?svc ''Cats purr.'' (Some []) =
            [(''classification'', Str l), (''reliability_score'', Num s),
             (''confidence'', Num c), (''reasoning'', Str r)]
          \<and> 0 \<le> s \<and> s \<le> 100 \<and> 0 \<le> c \<and> c \<le> 100
          \<and> (\<forall>e. classify_claim_body ?svc ''Cats purr.'' (Some []) = Inl e \<longrightarrow>
                 l = ''Unverified'' \<and> s = 0 \<and> c = 0
                 \<and> r = ''Classification error: '' @ str_of_error e)"
    by (rule classify_claim_total_and_bounded)
       (auto simp add: example_service_def example_classifier_def first_sentiment_def)
  then have bounded: "\<exists>l s c r. classify_claim ?svc ''Cats purr.'' (Some []) =
            [(''classification'', Str l), (''reliability_score'', Num s),
             (''confidence'', Num c), (''reasoning'', Str r)]
          \<and> 0 \<le> s \<and> s \<le> 100 \<and> 0 \<le> c \<and> c \<le> 100" by blast
  have a: "snd (lexical_rules ?svc ?p) = []"
    by (simp only: example_preprocessed example_no_trigger snd_conv)
  have ne: "strip ?p \<noteq> []"
    by (simp only: example_preprocessed example_not_blank not_False_eq_True)
  have c: "classifier ?svc = Some (example_classifier \<lparr> label = ''LABEL_0'', score = 1 / 2 \<rparr>)"
    by (simp add: example_service_def)
  have f: "first_sentiment (example_classifier \<lparr> label = ''LABEL_0'', score = 1 / 2 \<rparr>) ?p
           = Inr \<lparr> label = ''LABEL_0'', score = 1 / 2 \<rparr>"
    by (simp add: first_sentiment_def example_classifier_def)
  have hs: "heuristic_score ?svc ?p (Some []) = 30"
    by (rule no_evidence_heuristic_score [OF a]) simp
  from body_available [OF ne c f, of "Some []"] obtain r' l where
    "classify_claim_body ?svc ''Cats purr.'' (Some []) =
       Inr [(''classification'', Str l),
            (''reliability_score'',
             Num (max 0 (min 100 (max 0 (min 100 30) + adjustment_of \<lparr> label = ''LABEL_0'', score = 1 / 2 \<rparr>)))),
            (''confidence'', Num (min (score \<lparr> label = ''LABEL_0'', score = 1 / 2 :: real \<rparr> * 100) 95)),
            (''reasoning'', Str r')]" unfolding hs by blast
  then have "get_num (classify_claim ?svc ''Cats purr.'' (Some [])) ''reliability_score'' = Inr (55 / 2)"
    and "get_num (classify_claim ?svc ''Cats purr.'' (Some [])) ''confidence'' = Inr 50"
    by (simp_all add: classify_claim_def get_num_def getitem_def adjustment_of_def)
  with bounded show ?thesis by blast
qed

text \<open>
  C8, as the specification states it, fails: the claim \<open>Cats purr.\<close> fires no lexical
  rule, and with no evidence and a positive signal of confidence 1 its score is 32.
\<close>

theorem positive_signal_counterexample:
  "snd (lexical_rules (example_service (Some (example_classifier \<lparr> label = ''LABEL_2'', score = 1 \<rparr>)))
          (preprocess_for_embedding
             (soup_get_text (example_service (Some (example_classifier \<lparr> label = ''LABEL_2'', score = 1 \<rparr>))))
             ''Cats purr.'')) = []
   \<and> get_num (classify_claim (example_service (Some (example_classifier \<lparr> label = ''LABEL_2'', score = 1 \<rparr>)))
                 ''Cats purr.'' (Some [])) ''reliability_score'' = Inr 32"
proof -
  let ?svc = "example_service (Some (example_classifier \<lparr> label = ''LABEL_2'', score = 1 \<rparr>))"
  have a: "snd (lexical_rules ?svc (preprocess_for_embedding (soup_get_text ?svc) ''Cats purr.'')) = []"
    by (simp only: example_preprocessed example_no_trigger snd_conv)
  have ne: "strip (preprocess_for_embedding (soup_get_text ?svc) ''Cats purr.'') \<noteq> []"
    by (simp only: example_preprocessed example_not_blank not_False_eq_True)
  have c: "classifier ?svc = Some (example_classifier \<lparr> label = ''LABEL_2'', score = 1 \<rparr>)"
    by (simp add: example_service_def)
  have f: "first_sentiment (example_classifier \<lparr> label = ''LABEL_2'', score = 1 \<rparr>)
             (preprocess_for_embedding (soup_get_text ?svc) ''Cats purr.'')
           = Inr \<lparr> label = ''LABEL_2'', score = 1 \<rparr>"
    by (simp add: first_sentiment_def example_classifier_def)
  have hs: "heuristic_score ?svc (preprocess_for_embedding (soup_get_text ?svc) ''Cats purr.'') (Some []) = 30"
    by (rule no_evidence_heuristic_score [OF a]) simp
  from body_available [OF ne c f, of "Some []"] obtain r' where
    "classify_claim_body ?svc ''Cats purr.'' (Some []) =
       Inr [(''classification'',
             Str (recalculate (max 0 (min 100 (max 0 (min 100 30) + adjustment_of \<lparr> label = ''LABEL_2'', score = 1 \<rparr>)))
                   (classification_of_score 30))),
            (''reliability_score'',
             Num (max 0 (min 100 (max 0 (min 100 30) + adjustment_of \<lparr> label = ''LABEL_2'', score = 1 \<rparr>)))),
            (''confidence'', Num (min (score \<lparr> label = ''LABEL_2'', score = 1::real \<rparr> * 100) 95)),
            (''reasoning'', Str r')]" unfolding hs by blast
  then have "get_num (classify_claim ?svc ''Cats purr.'' (Some [])) ''reliability_score'' = Inr 32"
    by (simp add: classify_claim_def get_num_def getitem_def adjustment_of_def)
  with a show ?thesis by blast
qed

theorem no_evidence_score_bound_witness:
  "snd (lexical_rules (example_service (Some (example_classifier \<lparr> label = ''LABEL_2'', score = 1 \<rparr>)))
          (preprocess_for_embedding
             (soup_get_text (example_service (Some (example_classifier \<lparr> label = ''LABEL_2'', score = 1 \<rparr>))))
             ''Cats purr.'')) = []
   \<and> (\<exists>s. get_num (classify_claim (example_service (Some (example_classifier \<lparr> label = ''LABEL_2'', score = 1 \<rparr>)))
                 ''Cats purr.'' (Some [])) ''reliability_score'' = Inr s \<and> s \<le> 32)"
proof -
  let ?svc = "example_service (Some (example_classifier \<lparr> label = ''LABEL_2'', score = 1 \<rparr>))"
  have a: "snd (lexical_rules ?svc (preprocess_for_embedding (soup_get_text ?svc) ''Cats purr.'')) = []"
    by (simp only: example_preprocessed example_no_trigger snd_conv)
  have b: "Some [] = None \<or> Some [] = Some ([] :: string list)" by simp
  have "\<exists>s. get_num (classify_claim ?svc ''Cats purr.'' (Some [])) ''reliability_score'' = Inr s
     \<and> (s \<le> 30 \<or>
         (\<exists>clf r. classifier ?svc = Some clf
            \<and> first_sentiment clf (preprocess_for_embedding (soup_get_text ?svc) ''Cats purr.'') = Inr r
            \<and> label r = ''LABEL_2'' \<and> s \<le> 30 + 2 * score r))"
    by (rule no_evidence_score_bound [OF a b])
       (auto simp add: example_service_def example_classifier_def first_sentiment_def)
  then obtain s where
    s: "get_num (classify_claim ?svc ''Cats purr.'' (Some [])) ''reliability_score'' = Inr s"
       "s \<le> 30 \<or>
         (\<exists>clf r. classifier ?svc = Some clf
            \<and> first_sentiment clf (preprocess_for_embedding (soup_get_text ?svc) ''Cats purr.'') = Inr r
            \<and> label r = ''LABEL_2'' \<and> s \<le> 30 + 2 * score r)" by blast
  have "s \<le> 32" using s(2) by (auto simp add: example_service_def example_classifier_def first_sentiment_def)
  then show ?thesis using a s(1) by blast
qed

section \<open>Properties of the retrieval service\<close>

text \<open>
  C5, as the specification states it, fails. Source 1 is found by the vector search
  alone with score 0.9, source 2 by both searches with vector score 0.5 and keyword
  score 1.0; the fused scores are 0.63 and 0.65 and source 2 comes first.
\<close>

theorem fused_ranking_counterexample:
  "map ev_source_id
     (combine_and_rerank ''Cats purr.''
        [\<lparr> vh_id = 1, vh_score = 0.9, vh_payload = [] \<rparr>, \<lparr> vh_id = 2, vh_score = 0.5, vh_payload = [] \<rparr>]
        [\<lparr> km_id = 2, km_score = 1.0,
           km_source = \<lparr> fs_id = 2, fs_title = ''Cats'', fs_content = ''Cats purr when they are content.'',
                         fs_source_name = ''Vet'', fs_source_url = [] \<rparr> \<rparr>]
        5) = [2, 1]
   \<and> map ev_hybrid_score
     (combine_and_rerank ''Cats purr.''
        [\<lparr> vh_id = 1, vh_score = 0.9, vh_payload = [] \<rparr>, \<lparr> vh_id = 2, vh_score = 0.5, vh_payload = [] \<rparr>]
        [\<lparr> km_id = 2, km_score = 1.0,
           km_source = \<lparr> fs_id = 2, fs_title = ''Cats'', fs_content = ''Cats purr when they are content.'',
                         fs_source_name = ''Vet'', fs_source_url = [] \<rparr> \<rparr>]
        5) = [0.65, 0.63]"
  by code_simp

text \<open>
  C5, amended. Under \<open>hybrid_score = 0.7 * vector_score + 0.3 * keyword_score\<close>, with 0
  for the missing component, a source with vector score 0.5 and keyword score 1.0
  (hybrid 0.65) is ranked above a source with vector score 0.9 and keyword score 0.0
  (hybrid 0.63), whenever the two sources differ and at least two results are asked
  for.
\<close>

theorem fused_ranking:
  assumes "a \<noteq> b" and "2 \<le> n"
  shows "map ev_source_id
     (combine_and_rerank claim
        [\<lparr> vh_id = a, vh_score = 0.9, vh_payload = pa \<rparr>, \<lparr> vh_id = b, vh_score = 0.5, vh_payload = pb \<rparr>]
        [\<lparr> km_id = b, km_score = 1.0, km_source = src \<rparr>] n) = [b, a]
   \<and> map ev_hybrid_score
     (combine_and_rerank claim
        [\<lparr> vh_id = a, vh_score = 0.9, vh_payload = pa \<rparr>, \<lparr> vh_id = b, vh_score = 0.5, vh_payload = pb \<rparr>]
        [\<lparr> km_id = b, km_score = 1.0, km_source = src \<rparr>] n) = [0.65, 0.63]"
  using assms
  by (simp add: combine_and_rerank_def add_vector_result_def add_keyword_result_def Let_def
        format_result_def hybrid_score_of_def sort_desc_def)

theorem fused_ranking_witness:
  "(1 :: int) \<noteq> 2 \<and> (2 :: nat) \<le> 5
   \<and> map ev_source_id
     (combine_and_rerank ''Cats purr.''
        [\<lparr> vh_id = 1, vh_score = 0.9, vh_payload = [] \<rparr>, \<lparr> vh_id = 2, vh_score = 0.5, vh_payload = [] \<rparr>]
        [\<lparr> km_id = 2, km_score = 1.0, km_source = cat_source \<rparr>] 5) = [2, 1]"
proof -
  have a: "(1 :: int) \<noteq> 2" by simp
  have b: "(2 :: nat) \<le> 5" by simp
  from fused_ranking [OF a b] a b show ?thesis by blast
qed

text \<open>
  C2, as the specification states it, fails. With no embedding model and a fact source
  that matches both keywords of the claim, the keyword search finds the source and
  \<open>retrieve_evidence\<close> returns the empty list.
\<close>

theorem fallback_counterexample:
  "e_embedding_model (example_env None [] [cat_source]) = None
   \<and> map km_id (keyword_search (example_env None [] [cat_source]) () ''Cats purr.'' 10) = [2]
   \<and> retrieve_evidence (example_env None [] [cat_source]) () ''Cats purr.'' 5 = []"
  by code_simp

lemma generate_embedding_unavailable:
  "e_embedding_model env = None \<Longrightarrow> generate_embedding env claim = Inl (Exception ''Embedding model not loaded'')"
  by (simp add: generate_embedding_def)

text \<open>
  C2, amended. When the embedding model is absent or \<open>generate_embedding\<close> raises,
  \<open>retrieve_evidence\<close> returns the empty list, whatever the keyword search would find.
  With an empty corpus, that is no fact sources and a vector search that finds
  nothing or raises, it returns the empty list as well. It returns a list in every
  case.
\<close>

theorem retrieve_evidence_degrades:
  "((e_embedding_model env = None \<or> (\<exists>e. generate_embedding env claim = Inl e))
      \<longrightarrow> retrieve_evidence env w claim n = [])
   \<and> (e_query_fact_sources env w = Inr []
       \<and> (\<forall>q. search_similar_embeddings env w q (n * 2) = Inr []
               \<or> (\<exists>e. search_similar_embeddings env w q (n * 2) = Inl e))
      \<longrightarrow> retrieve_evidence env w claim n = [])"
proof (intro conjI impI)
  assume "e_embedding_model env = None \<or> (\<exists>e. generate_embedding env claim = Inl e)"
  then obtain e where "generate_embedding env claim = Inl e"
    using generate_embedding_unavailable by blast
  then show "retrieve_evidence env w claim n = []" by (simp add: retrieve_evidence_def)
next
  assume a: "e_query_fact_sources env w = Inr []
       \<and> (\<forall>q. search_similar_embeddings env w q (n * 2) = Inr []
               \<or> (\<exists>e. search_similar_embeddings env w q (n * 2) = Inl e))"
  have k: "keyword_search env w claim (n * 2) = []"
    using a by (simp add: keyword_search_def Let_def sort_desc_def)
  show "retrieve_evidence env w claim n = []"
  proof (cases "generate_embedding env claim")
    case (Inl e)
    then show ?thesis by (simp add: retrieve_evidence_def)
  next
    case (Inr q)
    from a have "search_similar_embeddings env w q (n * 2) = Inr []
               \<or> (\<exists>e. search_similar_embeddings env w q (n * 2) = Inl e)" by blast
    then show ?thesis using Inr k
      by (auto simp add: retrieve_evidence_def combine_and_rerank_def Let_def sort_desc_def)
  qed
qed

theorem retrieve_evidence_degrades_witness:
  "e_embedding_model (example_env None [] [cat_source]) = None
   \<and> retrieve_evidence (example_env None [] [cat_source]) () ''Cats purr.'' 5 = []
   \<and> e_query_fact_sources (example_env (Some example_encoder) [] []) () = Inr []
   \<and> generate_embedding (example_env (Some example_encoder) [] []) ''Cats purr.''
        = Inr [real (length ''Cats purr.''), 1]
   \<and> retrieve_evidence (example_env (Some example_encoder) [] []) () ''Cats purr.'' 5 = []"
proof -
  let ?E1 = "example_env None [] [cat_source]"
  let ?E2 = "example_env (Some example_encoder) [] []"
  have a: "e_embedding_model ?E1 = None" by (simp add: example_env_def)
  then have a': "e_embedding_model ?E1 = None \<or> (\<exists>e. generate_embedding ?E1 ''Cats purr.'' = Inl e)"
    by blast
  have b: "e_query_fact_sources ?E2 () = Inr []
       \<and> (\<forall>q. search_similar_embeddings ?E2 () q (5 * 2) = Inr []
               \<or> (\<exists>e. search_similar_embeddings ?E2 () q (5 * 2) = Inl e))"
    by (simp add: example_env_def example_qdrant_def search_similar_embeddings_def)
  have g: "generate_embedding ?E2 ''Cats purr.'' = Inr [real (length ''Cats purr.''), 1]"
    unfolding generate_embedding_def
    by (simp add: example_env_def example_encoder_def example_preprocessed example_not_blank)
  from retrieve_evidence_degrades [of ?E1 "''Cats purr.''" "()" 5] a'
  have r1: "retrieve_evidence ?E1 () ''Cats purr.'' 5 = []" by blast
  from retrieve_evidence_degrades [of ?E2 "''Cats purr.''" "()" 5] b
  have r2: "retrieve_evidence ?E2 () ''Cats purr.'' 5 = []" by blast
  from a r1 b g r2 show ?thesis by blast
qed

section \<open>Properties of the analysis service\<close>

lemma analysis_failed_claim: "r_claim (fst (analysis_failed env w cid t u e)) = t"
  by (simp add: analysis_failed_def Let_def)

lemma response_of_claim:
  "response_of cid t u cr es srcs pt = Inr r \<Longrightarrow> r_claim r = t"
  by (auto simp add: response_of_def split: sum.splits)

lemma analyze_claim_returns:
  "\<exists>r w'. analyze_claim env w t u = (Inr r, w') \<and> r_claim r = t"
  unfolding analyze_claim_def Let_def
  by (auto simp add: analysis_failed_claim split: prod.splits sum.splits dest: response_of_claim)

lemma batch_step_claim: "item_claim (fst (batch_step env w cd)) = claim_text_of cd"
proof -
  obtain r w' where "analyze_claim env w (claim_text_of cd) (source_url_of cd) = (Inr r, w')"
      "r_claim r = claim_text_of cd"
    using analyze_claim_returns [of env w "claim_text_of cd" "source_url_of cd"] by blast
  then show ?thesis
    by (simp add: batch_step_def Let_def item_claim_def degraded_def)
qed

lemma batch_step_blank:
  "strip (claim_text_of cd) = [] \<Longrightarrow>
     batch_step env w cd
       = (Degraded (degraded (claim_text_of cd) (source_url_of cd) ''Empty claim text''), w)"
  by (simp add: batch_step_def Let_def)

lemma batch_step_analysed:
  "strip (claim_text_of cd) \<noteq> [] \<Longrightarrow>
     \<exists>r. batch_step env w cd
           = (Analysed r, snd (analyze_claim env w (claim_text_of cd) (source_url_of cd)))
         \<and> fst (analyze_claim env w (claim_text_of cd) (source_url_of cd)) = Inr r"
  using analyze_claim_returns [of env w "claim_text_of cd" "source_url_of cd"]
  by (auto simp add: batch_step_def Let_def)

lemma batch_loop_acc:
  "batch_loop env w acc cs = (acc @ fst (batch_loop env w [] cs), snd (batch_loop env w [] cs))"
proof (induction cs arbitrary: w acc)
  case Nil
  then show ?case by simp
next
  case (Cons c cs)
  obtain item w' where st: "batch_step env w c = (item, w')" by (cases "batch_step env w c")
  have "batch_loop env w acc (c # cs) = batch_loop env w' (acc @ [item]) cs" by (simp add: st)
  also have "\<dots> = ((acc @ [item]) @ fst (batch_loop env w' [] cs), snd (batch_loop env w' [] cs))"
    by (rule Cons.IH)
  finally have 1: "batch_loop env w acc (c # cs)
     = (acc @ item # fst (batch_loop env w' [] cs), snd (batch_loop env w' [] cs))" by simp
  have "batch_loop env w [] (c # cs) = batch_loop env w' ([] @ [item]) cs" by (simp add: st)
  also have "\<dots> = (([] @ [item]) @ fst (batch_loop env w' [] cs), snd (batch_loop env w' [] cs))"
    by (rule Cons.IH)
  finally have 2: "batch_loop env w [] (c # cs)
     = (item # fst (batch_loop env w' [] cs), snd (batch_loop env w' [] cs))" by simp
  show ?case by (simp only: 1 2 fst_conv snd_conv)
qed

lemma batch_Nil: "analyze_claims_batch env w [] = ([], w)"
  by (simp add: analyze_claims_batch_def)

lemma batch_Cons:
  "analyze_claims_batch env w (c # cs) =
     (fst (batch_step env w c) # fst (analyze_claims_batch env (snd (batch_step env w c)) cs),
      snd (analyze_claims_batch env (snd (batch_step env w c)) cs))"
proof -
  obtain item w' where st: "batch_step env w c = (item, w')" by (cases "batch_step env w c")
  have "batch_loop env w [] (c # cs) = batch_loop env w' [item] cs" by (simp add: st)
  also have "\<dots> = ([item] @ fst (batch_loop env w' [] cs), snd (batch_loop env w' [] cs))"
    by (rule batch_loop_acc)
  finally show ?thesis by (simp add: analyze_claims_batch_def st)
qed

lemma batch_length: "length (fst (analyze_claims_batch env w cs)) = length cs"
  by (induction cs arbitrary: w) (simp_all add: batch_Nil batch_Cons)

lemma batch_take:
  "k \<le> length cs \<Longrightarrow>
     take k (fst (analyze_claims_batch env w cs)) = fst (analyze_claims_batch env w (take k cs))"
proof (induction cs arbitrary: w k)
  case Nil
  then show ?case by (simp add: batch_Nil)
next
  case (Cons c cs)
  show ?case
  proof (cases k)
    case 0
    then show ?thesis by (simp add: batch_Nil)
  next
    case (Suc j)
    then have "j \<le> length cs" using Cons.prems by simp
    from Cons.IH [OF this] show ?thesis by (simp add: Suc batch_Cons)
  qed
qed

lemma batch_nth:
  "i < length cs \<Longrightarrow>
     fst (analyze_claims_batch env w cs) ! i
       = fst (batch_step env (snd (analyze_claims_batch env w (take i cs))) (cs ! i))"
proof (induction cs arbitrary: w i)
  case Nil
  then show ?case by simp
next
  case (Cons c cs)
  show ?case
  proof (cases i)
    case 0
    then show ?thesis by (simp add: batch_Nil batch_Cons)
  next
    case (Suc j)
    then have "j < length cs" using Cons.prems by simp
    from Cons.IH [OF this] show ?thesis by (simp add: Suc batch_Cons)
  qed
qed

text \<open>
  What holds of a batch in every environment: it returns one result for each claim, in
  the order of the claims. The result at position \<open>i\<close> carries the text of claim \<open>i\<close> and
  is what one round of the loop gives for claim \<open>i\<close> in the state left by the claims
  before it. The first \<open>k\<close> results are the results of the batch of the first \<open>k\<close> claims,
  so no claim changes the result of an earlier one.
\<close>

lemma batch_structure:
  "length (fst (analyze_claims_batch env w claims)) = length claims
   \<and> (\<forall>i < length claims.
        item_claim (fst (analyze_claims_batch env w claims) ! i) = claim_text_of (claims ! i)
        \<and> fst (analyze_claims_batch env w claims) ! i
            = fst (batch_step env (snd (analyze_claims_batch env w (take i claims))) (claims ! i))
        \<and> (strip (claim_text_of (claims ! i)) = [] \<longrightarrow>
             fst (analyze_claims_batch env w claims) ! i
               = Degraded (degraded (claim_text_of (claims ! i)) (source_url_of (claims ! i))
                             ''Empty claim text''))
        \<and> (strip (claim_text_of (claims ! i)) \<noteq> [] \<longrightarrow>
             (\<exists>r. fst (analyze_claims_batch env w claims) ! i = Analysed r
                \<and> fst (analyze_claim env (snd (analyze_claims_batch env w (take i claims)))
                          (claim_text_of (claims ! i)) (source_url_of (claims ! i))) = Inr r)))
   \<and> (\<forall>k \<le> length claims.
        take k (fst (analyze_claims_batch env w claims))
          = fst (analyze_claims_batch env w (take k claims)))"
proof (intro conjI allI impI)
  show "length (fst (analyze_claims_batch env w claims)) = length claims" by (rule batch_length)
next
  fix i assume i: "i < length claims"
  show "item_claim (fst (analyze_claims_batch env w claims) ! i) = claim_text_of (claims ! i)"
    by (simp add: batch_nth [OF i] batch_step_claim)
next
  fix i assume i: "i < length claims"
  show "fst (analyze_claims_batch env w claims) ! i
            = fst (batch_step env (snd (analyze_claims_batch env w (take i claims))) (claims ! i))"
    by (rule batch_nth [OF i])
next
  fix i assume i: "i < length claims" and b: "strip (claim_text_of (claims ! i)) = []"
  show "fst (analyze_claims_batch env w claims) ! i
               = Degraded (degraded (claim_text_of (claims ! i)) (source_url_of (claims ! i))
                             ''Empty claim text'')"
    by (simp add: batch_nth [OF i] batch_step_blank [OF b])
next
  fix i assume i: "i < length claims" and b: "strip (claim_text_of (claims ! i)) \<noteq> []"
  from batch_step_analysed [OF b, of env "snd (analyze_claims_batch env w (take i claims))"]
  show "\<exists>r. fst (analyze_claims_batch env w claims) ! i = Analysed r
                \<and> fst (analyze_claim env (snd (analyze_claims_batch env w (take i claims)))
                          (claim_text_of (claims ! i)) (source_url_of (claims ! i))) = Inr r"
    by (auto simp add: batch_nth [OF i])
next
  fix k assume "k \<le> length claims"
  then show "take k (fst (analyze_claims_batch env w claims))
          = fst (analyze_claims_batch env w (take k claims))" by (rule batch_take)
qed

subsection \<open>The results of a failed analysis\<close>

text \<open>The early \<open>raise ValueError\<close> of \<open>analyze_claim\<close>, caught by its own handler.\<close>

lemma analyze_claim_blank:
  "strip claim_text = [] \<Longrightarrow>
     analyze_claim env w claim_text source_url
       = (Inr \<lparr> r_claim_id = None, r_claim = claim_text, r_classification = ''Unverified'',
                r_reliability = 0, r_confidence = 0, r_evidence = [],
                r_reasoning = ''Analysis failed: Claim text cannot be empty'',
                r_source_url = source_url, r_processing_time_ms = e_elapsed_ms env w,
                r_evidence_sources = [] \<rparr>, w)"
  by (simp add: analyze_claim_def analysis_failed_def str_of_error_def Let_def)

text \<open>
  A claim that cannot be stored: no claim id, nothing logged, and the state is the one
  the failed \<open>store_claim\<close> leaves.
\<close>

lemma analyze_claim_store_failed:
  assumes "strip claim_text \<noteq> []"
    and "e_store_claim env w claim_text source_url = (Inl e, w1)"
  shows "analyze_claim env w claim_text source_url
       = (Inr \<lparr> r_claim_id = None, r_claim = claim_text, r_classification = ''Unverified'',
                r_reliability = 0, r_confidence = 0, r_evidence = [],
                r_reasoning = ''Analysis failed: Database error: '' @ str_of_error e,
                r_source_url = source_url, r_processing_time_ms = e_elapsed_ms env w1,
                r_evidence_sources = [] \<rparr>, w1)"
proof -
  from assms(1) have "claim_text \<noteq> []" by (auto simp add: strip_def)
  with assms show ?thesis
    by (simp add: analyze_claim_def analysis_failed_def str_of_error_def Let_def)
qed

text \<open>A stored claim whose embedding cannot be computed: the failure is logged.\<close>

lemma analyze_claim_embedding_failed:
  assumes "strip claim_text \<noteq> []"
    and "e_store_claim env w claim_text source_url = (Inr claim_rec, w1)"
    and "generate_embedding env claim_text = Inl e"
  shows "analyze_claim env w claim_text source_url
       = (Inr \<lparr> r_claim_id = Some (cr_id claim_rec), r_claim = claim_text,
                r_classification = ''Unverified'',
                r_reliability = 0, r_confidence = 0, r_evidence = [],
                r_reasoning = ''Analysis failed: Embedding generation error: '' @ str_of_error e,
                r_source_url = source_url, r_processing_time_ms = e_elapsed_ms env w1,
                r_evidence_sources = [] \<rparr>,
          if cr_id claim_rec \<noteq> 0
          then e_log_processing env w1 (cr_id claim_rec) ''analysis_failed'' ''error''
                 (ErrorDetails (''Analysis failed: Embedding generation error: '' @ str_of_error e))
                 (e_elapsed_ms env w1)
          else w1)"
proof -
  from assms(1) have "claim_text \<noteq> []" by (auto simp add: strip_def)
  with assms show ?thesis
    by (simp add: analyze_claim_def analysis_failed_def str_of_error_def Let_def)
qed

text \<open>
  Two claims in a row that cannot be stored. The second is stored in the state that the
  first failure leaves, so a session that stays broken after the first failure fails
  the second claim too.
\<close>

lemma batch_store_failures:
  assumes "strip (claim_text_of c1) \<noteq> []" and "strip (claim_text_of c2) \<noteq> []"
    and "e_store_claim env w (claim_text_of c1) (source_url_of c1) = (Inl e1, w1)"
    and "e_store_claim env w1 (claim_text_of c2) (source_url_of c2) = (Inl e2, w2)"
  shows "analyze_claims_batch env w [c1, c2]
       = ([Analysed \<lparr> r_claim_id = None, r_claim = claim_text_of c1,
                       r_classification = ''Unverified'', r_reliability = 0, r_confidence = 0,
                       r_evidence = [],
                       r_reasoning = ''Analysis failed: Database error: '' @ str_of_error e1,
                       r_source_url = source_url_of c1,
                       r_processing_time_ms = e_elapsed_ms env w1, r_evidence_sources = [] \<rparr>,
           Analysed \<lparr> r_claim_id = None, r_claim = claim_text_of c2,
                       r_classification = ''Unverified'', r_reliability = 0, r_confidence = 0,
                       r_evidence = [],
                       r_reasoning = ''Analysis failed: Database error: '' @ str_of_error e2,
                       r_source_url = source_url_of c2,
                       r_processing_time_ms = e_elapsed_ms env w2, r_evidence_sources = [] \<rparr>],
          w2)"
proof -
  have 1: "batch_step env w c1
      = (Analysed \<lparr> r_claim_id = None, r_claim = claim_text_of c1,
                       r_classification = ''Unverified'', r_reliability = 0, r_confidence = 0,
                       r_evidence = [],
                       r_reasoning = ''Analysis failed: Database error: '' @ str_of_error e1,
                       r_source_url = source_url_of c1,
                       r_processing_time_ms = e_elapsed_ms env w1, r_evidence_sources = [] \<rparr>,
         w1)"
    using assms(1) by (simp add: batch_step_def Let_def analyze_claim_store_failed [OF assms(1,3)])
  have 2: "batch_step env w1 c2
      = (Analysed \<lparr> r_claim_id = None, r_claim = claim_text_of c2,
                       r_classification = ''Unverified'', r_reliability = 0, r_confidence = 0,
                       r_evidence = [],
                       r_reasoning = ''Analysis failed: Database error: '' @ str_of_error e2,
                       r_source_url = source_url_of c2,
                       r_processing_time_ms = e_elapsed_ms env w2, r_evidence_sources = [] \<rparr>,
         w2)"
    using assms(2) by (simp add: batch_step_def Let_def analyze_claim_store_failed [OF assms(2,4)])
  show ?thesis
    by (simp only: batch_Cons batch_Nil 1 2 fst_conv snd_conv)
qed

text \<open>
  C10. A failure is not kept to the claim it belongs to. The batch hands one database
  session to every claim and no path calls \<open>rollback()\<close>. On a session that stays broken
  after a failed commit, the claim \<open>Cats purr.\<close> analysed alone gets claim id 1, the
  label \<open>Misleading\<close> and the score 30. In a batch of two, after a claim whose source URL
  has 1001 characters and cannot be stored, both claims get a result (two results for two
  claims, in order), but \<open>Cats purr.\<close> now gets the degraded result of a database
  error: no claim id, \<open>Unverified\<close>, score 0, confidence 0 and the reasoning
  \<open>Analysis failed: Database error: ...\<close>. The failure of the first claim has changed
  the result of the second.
\<close>

theorem batch_failure_reaches_next_claim:
  "fst (analyze_claims_batch session_env False [[(''text'', ''Cats purr.'')]])
     = [Analysed \<lparr> r_claim_id = Some 1, r_claim = ''Cats purr.'',
                    r_classification = ''Misleading'', r_reliability = 30, r_confidence = 50,
                    r_evidence = [], r_reasoning = ''No supporting evidence found'',
                    r_source_url = None, r_processing_time_ms = 0, r_evidence_sources = [] \<rparr>]
   \<and> fst (analyze_claims_batch session_env False
            [[(''text'', ''Dogs bark.''), (''source_url'', replicate 1001 CHR ''a'')],
             [(''text'', ''Cats purr.'')]])
     = [Analysed \<lparr> r_claim_id = None, r_claim = ''Dogs bark.'',
                    r_classification = ''Unverified'', r_reliability = 0, r_confidence = 0,
                    r_evidence = [],
                    r_reasoning = ''Analysis failed: Database error: value too long for type character varying(1000)'',
                    r_source_url = Some (replicate 1001 CHR ''a''), r_processing_time_ms = 0,
                    r_evidence_sources = [] \<rparr>,
        Analysed \<lparr> r_claim_id = None, r_claim = ''Cats purr.'',
                    r_classification = ''Unverified'', r_reliability = 0, r_confidence = 0,
                    r_evidence = [],
                    r_reasoning = ''Analysis failed: Database error: PendingRollbackError'',
                    r_source_url = None, r_processing_time_ms = 0, r_evidence_sources = [] \<rparr>]"
  by code_simp

section \<open>Properties of the snippet extraction\<close>

lemma hd_insort_key:
  "hd (insort_key f x ys) = (if ys = [] \<or> f x \<le> f (hd ys) then x else hd ys)"
  by (cases ys) simp_all

lemma insort_key_not_Nil: "insort_key f x ys \<noteq> []"
  by (cases ys) simp_all

lemma sort_desc_Nil: "sort_desc key xs = [] \<longleftrightarrow> xs = []"
  by (cases xs) (simp_all add: sort_desc_def insort_key_not_Nil)

lemma sort_desc_Cons: "sort_desc key (x # xs) = insort_key (\<lambda>y. - key y) x (sort_desc key xs)"
  by (simp add: sort_desc_def)

text \<open>The head of the sorted list of matching sentences is the first sentence
  with the highest count.\<close>

lemma best_sentence_first_max:
  fixes h :: "string \<Rightarrow> nat"
  defines "rel \<equiv> \<lambda>sents. filter (\<lambda>(sentence, keyword_matches). keyword_matches > 0)
                         (map (\<lambda>sentence. (sentence, h sentence)) sents)"
  shows "(rel sents = [] \<longrightarrow> (\<forall>s \<in> set sents. h s = 0))
     \<and> (rel sents \<noteq> [] \<longrightarrow>
          (\<exists>pre best post. sents = pre @ best # post
             \<and> hd (sort_desc (\<lambda>x. real (snd x)) (rel sents)) = (best, h best)
             \<and> 0 < h best
             \<and> (\<forall>s \<in> set pre. h s < h best)
             \<and> (\<forall>s \<in> set post. h s \<le> h best)))"
proof (induction sents)
  case Nil
  then show ?case by (simp add: rel_def)
next
  case (Cons s sents)
  show ?case
  proof (cases "h s = 0")
    case True
    then have r: "rel (s # sents) = rel sents" by (simp add: rel_def)
    show ?thesis
    proof (cases "rel sents = []")
      case True
      then show ?thesis using Cons.IH r \<open>h s = 0\<close> by simp
    next
      case False
      with Cons.IH obtain pre best post where
        d: "sents = pre @ best # post"
           "hd (sort_desc (\<lambda>x. real (snd x)) (rel sents)) = (best, h best)"
           "0 < h best" "\<forall>s \<in> set pre. h s < h best" "\<forall>s \<in> set post. h s \<le> h best"
        by blast
      have "s # sents = (s # pre) @ best # post" using d(1) by simp
      moreover have "\<forall>t \<in> set (s # pre). h t < h best" using d(3,4) True by simp
      ultimately show ?thesis using d(2,3,5) r False by metis
    qed
  next
    case False
    then have pos: "0 < h s" by simp
    then have r: "rel (s # sents) = (s, h s) # rel sents" by (simp add: rel_def)
    let ?srt = "sort_desc (\<lambda>x. real (snd x)) (rel sents)"
    have hd: "hd (sort_desc (\<lambda>x. real (snd x)) (rel (s # sents)))
          = (if ?srt = [] \<or> real (snd (hd ?srt)) \<le> real (h s) then (s, h s) else hd ?srt)"
      by (simp add: r sort_desc_Cons hd_insort_key)
    show ?thesis
    proof (cases "rel sents = []")
      case True
      then have z: "\<forall>t \<in> set sents. h t = 0" using Cons.IH by blast
      have "hd (sort_desc (\<lambda>x. real (snd x)) (rel (s # sents))) = (s, h s)"
        using hd True by (simp add: sort_desc_Nil)
      moreover have "s # sents = [] @ s # sents" by simp
      moreover have "\<forall>t \<in> set sents. h t \<le> h s" using z by simp
      ultimately show ?thesis using pos r by (metis empty_iff list.set(1) list.distinct(1))
    next
      case False
      with Cons.IH obtain pre best post where
        d: "sents = pre @ best # post"
           "hd ?srt = (best, h best)"
           "0 < h best" "\<forall>s \<in> set pre. h s < h best" "\<forall>s \<in> set post. h s \<le> h best"
        by blast
      have ne: "?srt \<noteq> []" using False by (simp add: sort_desc_Nil)
      show ?thesis
      proof (cases "h best \<le> h s")
        case True
        then have "hd (sort_desc (\<lambda>x. real (snd x)) (rel (s # sents))) = (s, h s)"
          using hd d(2) by simp
        moreover have "s # sents = [] @ s # sents" by simp
        moreover have "\<forall>t \<in> set sents. h t \<le> h s"
          using d(1,4,5) True by (auto simp add: less_imp_le order_trans)
        ultimately show ?thesis using pos r by (metis empty_iff list.set(1) list.distinct(1))
      next
        case F: False
        then have "hd (sort_desc (\<lambda>x. real (snd x)) (rel (s # sents))) = (best, h best)"
          using hd d(2) ne by simp
        moreover have "s # sents = (s # pre) @ best # post" using d(1) by simp
        moreover have "\<forall>t \<in> set (s # pre). h t < h best" using d(4) F by simp
        ultimately show ?thesis using d(3,5) r by (metis list.distinct(1))
      qed
    qed
  qed
qed

lemma snippet_of_None:
  "snippet_of kws n c = None \<longleftrightarrow>
     ev_content c = []
     \<or> (\<forall>s \<in> set (extract_sentences (ev_content c)). keyword_hits kws (lower s) = 0)"
proof (cases "ev_content c = []")
  case True
  then show ?thesis by (simp add: snippet_of_def)
next
  case False
  let ?h = "\<lambda>s. keyword_hits kws (lower s)"
  let ?rel = "relevant_sentences kws (ev_content c)"
  note fm = best_sentence_first_max [of ?h "extract_sentences (ev_content c)",
      folded relevant_sentences_def]
  have "snippet_of kws n c = None \<longleftrightarrow> sort_desc (\<lambda>x. real (snd x)) ?rel = []"
    using False by (simp add: snippet_of_def Let_def split: list.splits)
  also have "\<dots> \<longleftrightarrow> ?rel = []" by (rule sort_desc_Nil)
  also have "\<dots> \<longleftrightarrow> (\<forall>s \<in> set (extract_sentences (ev_content c)). ?h s = 0)"
  proof
    assume "?rel = []"
    then show "\<forall>s \<in> set (extract_sentences (ev_content c)). ?h s = 0" using fm by blast
  next
    assume "\<forall>s \<in> set (extract_sentences (ev_content c)). ?h s = 0"
    then show "?rel = []" using fm by fastforce
  qed
  finally show ?thesis using False by simp
qed

lemma snippet_of_Some:
  assumes "snippet_of kws n c = Some snip"
  shows "\<exists>pre best post. extract_sentences (ev_content c) = pre @ best # post
     \<and> 0 < keyword_hits kws (lower best)
     \<and> (\<forall>s \<in> set pre. keyword_hits kws (lower s) < keyword_hits kws (lower best))
     \<and> (\<forall>s \<in> set post. keyword_hits kws (lower s) \<le> keyword_hits kws (lower best))
     \<and> snip = (if length best > n then take n best @ ''...'' else best)"
proof -
  let ?h = "\<lambda>s. keyword_hits kws (lower s)"
  let ?rel = "relevant_sentences kws (ev_content c)"
  let ?srt = "sort_desc (\<lambda>x. real (snd x)) ?rel"
  note fm = best_sentence_first_max [of ?h "extract_sentences (ev_content c)",
      folded relevant_sentences_def]
  from assms have ne: "?srt \<noteq> []" and sn: "snip = truncate n (fst (hd ?srt))"
    by (auto simp add: snippet_of_def Let_def split: if_splits list.splits)
  then have "?rel \<noteq> []" by (simp add: sort_desc_Nil)
  with fm obtain pre best post where
    d: "extract_sentences (ev_content c) = pre @ best # post"
       "hd ?srt = (best, ?h best)" "0 < ?h best"
       "\<forall>s \<in> set pre. ?h s < ?h best" "\<forall>s \<in> set post. ?h s \<le> ?h best"
    by blast
  have "snip = (if length best > n then take n best @ ''...'' else best)"
    using sn d(2) by (simp add: truncate_def)
  with d show ?thesis by blast
qed

lemma length_map_filter_le: "length (List.map_filter f xs) \<le> length xs"
  by (induction xs) (simp_all add: split: option.splits)

text \<open>
  C7, amended. \<open>extract_evidence_snippets\<close> goes through the candidates in order and
  returns at most one snippet for each, so the list is no longer than the candidate
  list. A candidate gives no snippet exactly when its content is empty or none of its
  sentences contains one of the claim's three keywords. Otherwise its snippet is the
  sentence with the highest count of keyword matches, the earliest one among equals
  (every sentence before it has a strictly lower count, every sentence after it has
  no higher count), cut to \<open>max_snippet_length\<close> characters with \<open>...\<close> appended when
  it was longer.
\<close>

theorem snippets_per_candidate:
  "length (extract_evidence_snippets gt claim cands n) \<le> length cands
   \<and> extract_evidence_snippets gt claim cands n
       = List.map_filter (snippet_of (extract_keywords gt claim 3) n) cands
   \<and> (\<forall>c. snippet_of kws n c = None \<longleftrightarrow>
          ev_content c = []
          \<or> (\<forall>s \<in> set (extract_sentences (ev_content c)). keyword_hits kws (lower s) = 0))
   \<and> (\<forall>c snip. snippet_of kws n c = Some snip \<longrightarrow>
          (\<exists>pre best post. extract_sentences (ev_content c) = pre @ best # post
             \<and> 0 < keyword_hits kws (lower best)
             \<and> (\<forall>s \<in> set pre. keyword_hits kws (lower s) < keyword_hits kws (lower best))
             \<and> (\<forall>s \<in> set post. keyword_hits kws (lower s) \<le> keyword_hits kws (lower best))
             \<and> snip = (if length best > n then take n best @ ''...'' else best)))"
proof (intro conjI allI impI)
  show "length (extract_evidence_snippets gt claim cands n) \<le> length cands"
    by (simp add: extract_evidence_snippets_def Let_def length_map_filter_le)
next
  show "extract_evidence_snippets gt claim cands n
       = List.map_filter (snippet_of (extract_keywords gt claim 3) n) cands"
    by (simp add: extract_evidence_snippets_def Let_def)
next
  fix c
  show "snippet_of kws n c = None \<longleftrightarrow>
          ev_content c = []
          \<or> (\<forall>s \<in> set (extract_sentences (ev_content c)). keyword_hits kws (lower s) = 0)"
    by (rule snippet_of_None)
next
  fix c snip assume "snippet_of kws n c = Some snip"
  then show "\<exists>pre best post. extract_sentences (ev_content c) = pre @ best # post
             \<and> 0 < keyword_hits kws (lower best)
             \<and> (\<forall>s \<in> set pre. keyword_hits kws (lower s) < keyword_hits kws (lower best))
             \<and> (\<forall>s \<in> set post. keyword_hits kws (lower s) \<le> keyword_hits kws (lower best))
             \<and> snip = (if length best > n then take n best @ ''...'' else best)"
    by (rule snippet_of_Some)
qed

lemma example_keywords3:
  "extract_keywords (soup_get_text (example_service clf)) ''Cats purr.'' 3 = [''cats'', ''purr'']"
  unfolding example_service_def by code_simp

text \<open>
  C7, as the specification states it, fails. A candidate whose content is the sentence
  \<open>Dogs bark at night.\<close> has non-empty content and an extractable sentence, and gives
  no snippet for the claim \<open>Cats purr.\<close>, whose keywords it does not contain.
\<close>

theorem no_match_no_snippet_counterexample:
  "ev_content (example_evidence ''Dogs bark at night.'') \<noteq> []
   \<and> extract_sentences (ev_content (example_evidence ''Dogs bark at night.''))
        = [''Dogs bark at night'']
   \<and> extract_evidence_snippets (soup_get_text (example_service None)) ''Cats purr.''
        [example_evidence ''Dogs bark at night.''] 200 = []"
proof -
  have a: "ev_content (example_evidence ''Dogs bark at night.'') = ''Dogs bark at night.''"
    by (simp add: example_evidence_def)
  have b: "extract_sentences ''Dogs bark at night.'' = [''Dogs bark at night'']" by code_simp
  have c: "keyword_hits [''cats'', ''purr''] (lower ''Dogs bark at night'') = 0" by code_simp
  have "snippet_of [''cats'', ''purr''] 200 (example_evidence ''Dogs bark at night.'') = None"
    by (simp add: snippet_of_def Let_def a relevant_sentences_def b c sort_desc_def)
  then show ?thesis
    by (simp add: a b extract_evidence_snippets_def Let_def example_keywords3)
qed

theorem snippets_per_candidate_witness:
  "length (extract_evidence_snippets (soup_get_text (example_service None)) ''Cats purr.''
        [example_evidence ''Dogs bark at night.'', example_evidence ''Cats eat. Cats purr at night.''] 12)
      \<le> 2
   \<and> extract_evidence_snippets (soup_get_text (example_service None)) ''Cats purr.''
        [example_evidence ''Dogs bark at night.'', example_evidence ''Cats eat. Cats purr at night.''] 12
      = [''Cats purr at...'']"
proof -
  let ?gt = "soup_get_text (example_service None)"
  let ?cs = "[example_evidence ''Dogs bark at night.'', example_evidence ''Cats eat. Cats purr at night.'']"
  note th = snippets_per_candidate [of ?gt "''Cats purr.''" ?cs 12 "[''cats'', ''purr'']"]
  from th have l: "length (extract_evidence_snippets ?gt ''Cats purr.'' ?cs 12) \<le> length ?cs"
    by blast
  from th have e: "extract_evidence_snippets ?gt ''Cats purr.'' ?cs 12
       = List.map_filter (snippet_of (extract_keywords ?gt ''Cats purr.'' 3) 12) ?cs" by blast
  have s1: "snippet_of [''cats'', ''purr''] 12 (example_evidence ''Dogs bark at night.'') = None"
    unfolding example_evidence_def by code_simp
  have s2: "snippet_of [''cats'', ''purr''] 12 (example_evidence ''Cats eat. Cats purr at night.'')
      = Some ''Cats purr at...''"
    unfolding example_evidence_def by code_simp
  show ?thesis
    using l by (simp add: e example_keywords3 s1 s2)
qed

section \<open>Properties of the text processor\<close>

subsection \<open>Whitespace runs\<close>

lemma collapse_Nil: "re_sub ws_run '' '' [] = []"
  by (simp add: re_sub.simps)

lemma drop_takeWhile: "drop (length (takeWhile P xs)) xs = dropWhile P xs"
  by (induction xs) simp_all

lemma collapse_space:
  "is_space c \<Longrightarrow> re_sub ws_run '' '' (c # cs) = CHR '' '' # re_sub ws_run '' '' (dropWhile is_space cs)"
  by (simp add: re_sub.simps ws_run_def drop_takeWhile)

lemma collapse_other:
  "\<not> is_space c \<Longrightarrow> re_sub ws_run '' '' (c # cs) = c # re_sub ws_run '' '' cs"
  by (simp add: re_sub.simps ws_run_def)

lemma is_space_blank: "is_space CHR '' ''"
  by (simp add: is_space_def code_point_def)

lemma collapse_head:
  "s = [] \<or> \<not> is_space (hd s) \<Longrightarrow>
     re_sub ws_run '' '' s = [] \<or> \<not> is_space (hd (re_sub ws_run '' '' s))"
  by (cases s) (auto simp add: collapse_Nil collapse_other)

lemma dropWhile_head: "dropWhile P xs = [] \<or> \<not> P (hd (dropWhile P xs))"
  using hd_dropWhile [of P xs] by blast

lemma collapsed_Nil: "collapsed []"
  by (simp add: collapsed_def)

lemma collapsed_Cons:
  "collapsed (c # cs) \<longleftrightarrow>
     (is_space c \<longrightarrow> c = CHR '' '') \<and> (is_space c \<longrightarrow> cs = [] \<or> \<not> is_space (hd cs)) \<and> collapsed cs"
  by (auto simp add: collapsed_def successively_Cons)

lemma collapsed_collapse: "collapsed (re_sub ws_run '' '' s)"
proof (induction s rule: length_induct)
  case (1 s)
  show ?case
  proof (cases s)
    case Nil
    then show ?thesis by (simp add: collapse_Nil collapsed_Nil)
  next
    case (Cons c cs)
    show ?thesis
    proof (cases "is_space c")
      case True
      let ?t = "dropWhile is_space cs"
      have "length ?t < length s" using Cons by (simp add: length_dropWhile_le le_imp_less_Suc)
      then have ih: "collapsed (re_sub ws_run '' '' ?t)" using 1 by blast
      have hd: "re_sub ws_run '' '' ?t = [] \<or> \<not> is_space (hd (re_sub ws_run '' '' ?t))"
        by (rule collapse_head) (rule dropWhile_head)
      show ?thesis
        using ih hd by (simp add: Cons collapse_space [OF True] collapsed_Cons)
    next
      case False
      have "length cs < length s" using Cons by simp
      then have "collapsed (re_sub ws_run '' '' cs)" using 1 by blast
      then show ?thesis by (simp add: Cons collapse_other [OF False] collapsed_Cons False)
    qed
  qed
qed

lemma collapse_collapsed: "collapsed s \<Longrightarrow> re_sub ws_run '' '' s = s"
proof (induction s)
  case Nil
  then show ?case by (simp add: collapse_Nil)
next
  case (Cons c cs)
  then have cs: "re_sub ws_run '' '' cs = cs" by (simp add: collapsed_Cons)
  show ?case
  proof (cases "is_space c")
    case True
    then have "c = CHR '' ''" and "cs = [] \<or> \<not> is_space (hd cs)"
      using Cons.prems by (simp_all add: collapsed_Cons)
    then have d: "dropWhile is_space cs = cs" by (cases cs) auto
    have "re_sub ws_run '' '' (c # cs) = CHR '' '' # re_sub ws_run '' '' (dropWhile is_space cs)"
      by (rule collapse_space [OF True])
    then show ?thesis by (simp only: d cs \<open>c = CHR '' ''\<close>)
  next
    case False
    then show ?thesis using cs by (simp add: collapse_other)
  qed
qed

lemma set_collapse: "set (re_sub ws_run '' '' s) \<subseteq> {c \<in> set s. \<not> is_space c} \<union> {CHR '' ''}"
proof (induction s rule: length_induct)
  case (1 s)
  show ?case
  proof (cases s)
    case Nil
    then show ?thesis by (simp add: collapse_Nil)
  next
    case (Cons c cs)
    show ?thesis
    proof (cases "is_space c")
      case True
      let ?t = "dropWhile is_space cs"
      have "length ?t < length s" using Cons by (simp add: length_dropWhile_le le_imp_less_Suc)
      then have "set (re_sub ws_run '' '' ?t) \<subseteq> {c \<in> set ?t. \<not> is_space c} \<union> {CHR '' ''}"
        using 1 by blast
      moreover have "set ?t \<subseteq> set cs" by (rule set_dropWhileD [THEN subsetI])
      ultimately show ?thesis by (auto simp add: Cons collapse_space [OF True])
    next
      case False
      have "length cs < length s" using Cons by simp
      then have "set (re_sub ws_run '' '' cs) \<subseteq> {c \<in> set cs. \<not> is_space c} \<union> {CHR '' ''}"
        using 1 by blast
      then show ?thesis using False by (auto simp add: Cons collapse_other)
    qed
  qed
qed

subsection \<open>\<open>strip\<close>\<close>

lemma set_strip: "set (strip s) \<subseteq> set s"
proof -
  have "set (strip s) = set (dropWhile is_space (rev (dropWhile is_space s)))"
    by (simp add: strip_def)
  also have "\<dots> \<subseteq> set (rev (dropWhile is_space s))" by (rule set_dropWhileD [THEN subsetI])
  also have "\<dots> \<subseteq> set s" using set_dropWhileD [of _ is_space s] by auto
  finally show ?thesis .
qed

lemma collapsed_append: "collapsed (xs @ ys) \<Longrightarrow> collapsed xs \<and> collapsed ys"
  by (auto simp add: collapsed_def successively_append_iff)

lemma collapsed_dropWhile: "collapsed s \<Longrightarrow> collapsed (dropWhile P s)"
  using collapsed_append [of "takeWhile P s" "dropWhile P s"] by simp

lemma collapsed_rev: "collapsed (rev s) = collapsed s"
proof -
  have "successively (\<lambda>x y. \<not> (is_space y \<and> is_space x)) s
        = successively (\<lambda>a b. \<not> (is_space a \<and> is_space b)) s"
    by (rule successively_cong) auto
  then show ?thesis by (simp add: collapsed_def)
qed

lemma collapsed_strip: "collapsed s \<Longrightarrow> collapsed (strip s)"
  by (simp add: strip_def collapsed_rev collapsed_dropWhile)

lemma strip_ends:
  "strip s = [] \<or> (\<not> is_space (hd (strip s)) \<and> \<not> is_space (last (strip s)))"
proof (cases "strip s = []")
  case True
  then show ?thesis by simp
next
  case False
  let ?d = "dropWhile is_space s"
  let ?e = "dropWhile is_space (rev ?d)"
  have e: "?e \<noteq> []" using False by (simp add: strip_def)
  then have l: "\<not> is_space (hd ?e)" using dropWhile_head [of is_space "rev ?d"] by blast
  have last: "last (strip s) = hd ?e" using e by (simp add: strip_def last_rev)
  have d: "?d \<noteq> []" using e by (metis dropWhile.simps(1) rev.simps(1))
  then have h: "\<not> is_space (hd ?d)" using dropWhile_head [of is_space s] by blast
  have "rev (takeWhile is_space (rev ?d) @ ?e) = rev (rev ?d)"
    by (simp only: takeWhile_dropWhile_id)
  then have "?d = rev ?e @ rev (takeWhile is_space (rev ?d))"
    by (simp only: rev_append rev_rev_ident)
  then have "hd ?d = hd (rev ?e)" using e by (metis hd_append2 rev_is_Nil_conv)
  then have "\<not> is_space (hd (strip s))" using h by (simp add: strip_def)
  then show ?thesis using l last by simp
qed

lemma strip_id:
  assumes "s = [] \<or> (\<not> is_space (hd s) \<and> \<not> is_space (last s))"
  shows "strip s = s"
proof (cases s)
  case Nil
  then show ?thesis by (simp add: strip_def)
next
  case (Cons c cs)
  then have h: "\<not> is_space (hd s)" and l: "\<not> is_space (last s)" using assms by auto
  have 1: "dropWhile is_space s = s" using h Cons by simp
  have "rev s \<noteq> []" and "hd (rev s) = last s" using Cons by (simp_all add: hd_rev)
  then obtain x xs where x: "rev s = x # xs" "x = last s" by (cases "rev s") auto
  have 2: "dropWhile is_space (rev s) = rev s" unfolding x(1) using l x(2) by simp
  show ?thesis by (simp add: strip_def 1 2)
qed

lemma strip_strip: "strip (strip s) = strip s"
  by (rule strip_id) (rule strip_ends)

subsection \<open>Deleting matches\<close>

lemma set_re_sub_delete: "set (re_sub m [] s) \<subseteq> set s"
proof (induction s rule: length_induct)
  case (1 s)
  show ?case
  proof (cases s)
    case Nil
    then show ?thesis by (simp add: re_sub.simps)
  next
    case (Cons c cs)
    have ih: "\<And>t. length t \<le> length cs \<Longrightarrow> set (re_sub m [] t) \<subseteq> set t"
      using 1 Cons by simp
    show ?thesis
    proof (cases "m (c # cs)")
      case None
      have "set (re_sub m [] cs) \<subseteq> set cs" by (rule ih) simp
      then show ?thesis using None Cons by (auto simp add: re_sub.simps)
    next
      case (Some k)
      show ?thesis
      proof (cases k)
        case 0
        have "set (re_sub m [] cs) \<subseteq> set cs" by (rule ih) simp
        then show ?thesis using Some 0 Cons by (auto simp add: re_sub.simps)
      next
        case (Suc n)
        have "set (re_sub m [] (drop n cs)) \<subseteq> set (drop n cs)" by (rule ih) simp
        moreover have "set (drop n cs) \<subseteq> set cs" by (rule set_drop_subset)
        ultimately show ?thesis using Some Suc Cons by (auto simp add: re_sub.simps)
      qed
    qed
  qed
qed

lemma re_sub_no_match:
  assumes "\<And>t. set t \<subseteq> set s \<Longrightarrow> m t = None"
  shows "re_sub m repl s = s"
  using assms
proof (induction s)
  case Nil
  then show ?case by (simp add: re_sub.simps)
next
  case (Cons c cs)
  have "m (c # cs) = None" using Cons.prems by simp
  moreover have "re_sub m repl cs = cs" using Cons.prems by (intro Cons.IH) auto
  ultimately show ?case by (simp add: re_sub.simps)
qed

lemma starts_with_set: "starts_with s p \<Longrightarrow> set p \<subseteq> set s"
  by (induction s p rule: starts_with.induct) auto

lemma url_match_needs_slash: "CHR ''/'' \<notin> set t \<Longrightarrow> url_match t = None"
proof -
  assume n: "CHR ''/'' \<notin> set t"
  have "\<not> starts_with (drop k (drop 4 t)) ''://''" for k
  proof
    assume "starts_with (drop k (drop 4 t)) ''://''"
    then have "set ''://'' \<subseteq> set (drop k (drop 4 t))" by (rule starts_with_set)
    moreover have "set (drop k (drop 4 t)) \<subseteq> set t"
      using set_drop_subset [of k "drop 4 t"] set_drop_subset [of 4 t] by blast
    ultimately show False using n by auto
  qed
  then show ?thesis by (simp add: url_match_def Let_def)
qed

lemma email_match_needs_at: "CHR ''@'' \<notin> set t \<Longrightarrow> email_match t = None"
proof -
  assume n: "CHR ''@'' \<notin> set t"
  let ?run = "takeWhile (\<lambda>c. \<not> is_space c) t"
  have "set (butlast (tl ?run)) \<subseteq> set (tl ?run)" by (auto dest: in_set_butlastD)
  also have "\<dots> \<subseteq> set ?run" by (cases ?run) auto
  also have "\<dots> \<subseteq> set t" by (auto dest: set_takeWhileD)
  finally have "CHR ''@'' \<notin> set (butlast (tl ?run))" using n by blast
  then show ?thesis by (simp add: email_match_def Let_def)
qed

subsection \<open>Lower case\<close>

lemma code_point_char_of: "n < 256 \<Longrightarrow> code_point (char_of n) = n"
  by (simp add: code_point_def)

lemma lower_char_idem: "lower_char (lower_char c) = lower_char c"
proof (cases "(65 \<le> code_point c \<and> code_point c \<le> 90) \<or> (192 \<le> code_point c \<and> code_point c \<le> 214)
                \<or> (216 \<le> code_point c \<and> code_point c \<le> 222)")
  case True
  then have l: "lower_char c = char_of (code_point c + 32)" by (simp add: lower_char_def Let_def)
  have "code_point c + 32 < 256" using True by auto
  then have cp: "code_point (char_of (code_point c + 32)) = code_point c + 32"
    by (rule code_point_char_of)
  have "\<not> ((65 \<le> code_point c + 32 \<and> code_point c + 32 \<le> 90)
            \<or> (192 \<le> code_point c + 32 \<and> code_point c + 32 \<le> 214)
            \<or> (216 \<le> code_point c + 32 \<and> code_point c + 32 \<le> 222))"
    using True by auto
  then have "lower_char (char_of (code_point c + 32)) = char_of (code_point c + 32)"
    unfolding lower_char_def Let_def cp by (rule if_not_P)
  then show ?thesis by (simp only: l)
next
  case False
  then have "lower_char c = c" unfolding lower_char_def Let_def by (rule if_not_P)
  then show ?thesis by simp
qed

lemma lower_char_blank: "lower_char CHR '' '' = CHR '' ''"
  by (simp add: lower_char_def code_point_def)

lemma lower_fixed:
  assumes "\<forall>c \<in> set r. lower_char c = c"
  shows "lower r = r"
  using assms by (simp add: lower_def map_idI)

lemma lower_set_fixed: "c \<in> set (lower s) \<Longrightarrow> lower_char c = c"
  by (auto simp add: lower_def lower_char_idem)

subsection \<open>Plain characters\<close>

lemma plain_char_kept: "plain_char c \<Longrightarrow> kept_by_clean c"
  by (auto simp add: plain_char_def kept_by_clean_def is_space_blank)

lemma plain_char_no_slash: "\<not> plain_char CHR ''/''"
  by (simp add: plain_char_def is_word_def is_alnum_def code_point_def)

lemma plain_char_no_at: "\<not> plain_char CHR ''@''"
  by (simp add: plain_char_def is_word_def is_alnum_def code_point_def)

lemma kept_plain: "kept_by_clean c \<Longrightarrow> \<not> is_space c \<Longrightarrow> plain_char c"
  by (auto simp add: plain_char_def kept_by_clean_def)

lemma plain_blank: "plain_char CHR '' ''"
  by (simp add: plain_char_def)

subsection \<open>The result of \<open>clean_text\<close>\<close>

lemma clean_text_result:
  "(\<forall>c \<in> set (clean_text gt x). plain_char c \<and> lower_char c = c)
   \<and> collapsed (clean_text gt x)
   \<and> (clean_text gt x = []
       \<or> (\<not> is_space (hd (clean_text gt x)) \<and> \<not> is_space (last (clean_text gt x))))"
proof (cases "x = []")
  case True
  then show ?thesis by (simp add: clean_text_def collapsed_Nil)
next
  case False
  define t2 where "t2 = lower (clean_html gt x)"
  define t4 where "t4 = re_sub email_match [] (re_sub url_match [] t2)"
  define t5 where "t5 = map (\<lambda>c. if kept_by_clean c then c else CHR '' '') t4"
  define t6 where "t6 = re_sub ws_run '' '' t5"
  have r: "clean_text gt x = strip t6"
    using False by (simp add: clean_text_def Let_def t2_def t4_def t5_def t6_def)
  have s4: "set t4 \<subseteq> set t2"
    unfolding t4_def using set_re_sub_delete [of email_match "re_sub url_match [] t2"]
      set_re_sub_delete [of url_match t2] by blast
  have p5: "kept_by_clean c \<and> lower_char c = c" if "c \<in> set t5" for c
  proof -
    from that obtain d where d: "d \<in> set t4" "c = (if kept_by_clean d then d else CHR '' '')"
      by (auto simp add: t5_def)
    have "lower_char d = d" using d(1) s4 lower_set_fixed [of d "clean_html gt x"]
      by (auto simp add: t2_def)
    then show ?thesis
      using d(2) by (auto simp add: lower_char_blank kept_by_clean_def is_space_blank)
  qed
  have p6: "plain_char c \<and> lower_char c = c" if "c \<in> set t6" for c
  proof -
    from that set_collapse [of t5] have "(c \<in> set t5 \<and> \<not> is_space c) \<or> c = CHR '' ''"
      by (auto simp add: t6_def)
    then show ?thesis using p5 by (auto simp add: kept_plain plain_blank lower_char_blank)
  qed
  have c6: "collapsed t6" unfolding t6_def by (rule collapsed_collapse)
  have "\<forall>c \<in> set (strip t6). plain_char c \<and> lower_char c = c"
    using p6 set_strip [of t6] by blast
  moreover have "collapsed (strip t6)" using c6 by (rule collapsed_strip)
  moreover note strip_ends [of t6]
  ultimately show ?thesis unfolding r by blast
qed

lemma clean_text_fixed:
  assumes gt: "\<And>s. \<forall>c \<in> set s. plain_char c \<Longrightarrow> gt s = s"
    and p: "\<forall>c \<in> set r. plain_char c \<and> lower_char c = c"
    and c: "collapsed r"
    and e: "r = [] \<or> (\<not> is_space (hd r) \<and> \<not> is_space (last r))"
  shows "clean_text gt r = r"
proof (cases "r = []")
  case True
  then show ?thesis by (simp add: clean_text_def)
next
  case False
  have g: "gt r = r" using gt p by blast
  have col: "re_sub ws_run '' '' r = r" using c by (rule collapse_collapsed)
  have st: "strip r = r" using e by (rule strip_id)
  have h: "clean_html gt r = r" using False by (simp add: clean_html_def g col st)
  have lo: "lower r = r" using p by (simp add: lower_fixed)
  have "CHR ''/'' \<notin> set r" using p plain_char_no_slash by blast
  then have "\<And>t. set t \<subseteq> set r \<Longrightarrow> url_match t = None"
    using url_match_needs_slash by blast
  then have url: "re_sub url_match [] r = r" by (rule re_sub_no_match)
  have "CHR ''@'' \<notin> set r" using p plain_char_no_at by blast
  then have "\<And>t. set t \<subseteq> set r \<Longrightarrow> email_match t = None"
    using email_match_needs_at by blast
  then have em: "re_sub email_match [] r = r" by (rule re_sub_no_match)
  have mp: "map (\<lambda>c. if kept_by_clean c then c else CHR '' '') r = r"
    using p plain_char_kept by (intro map_idI) auto
  show ?thesis using False by (simp add: clean_text_def Let_def h lo url em mp col st)
qed

text \<open>
  C9. \<open>clean_text\<close> is idempotent: cleaning a cleaned text gives the same text, for every
  input. The result of one pass consists of plain characters in lower case, is
  collapsed, and neither starts nor ends with whitespace; on such a text every step of
  \<open>clean_text\<close> is the identity. \<open>BeautifulSoup(...).get_text()\<close> is taken to return a
  text unchanged that consists of plain characters, which hold neither \<open><\<close> nor \<open>&\<close>.
\<close>

theorem clean_text_idempotent:
  assumes "\<And>s. \<forall>c \<in> set s. plain_char c \<Longrightarrow> gt s = s"
  shows "clean_text gt (clean_text gt x) = clean_text gt x"
  using assms clean_text_result [of gt x] by (intro clean_text_fixed) blast+

theorem clean_text_idempotent_witness:
  "clean_text (soup_get_text (example_service None))
     (clean_text (soup_get_text (example_service None)) ''A, b@c.d  E/F!'')
   = clean_text (soup_get_text (example_service None)) ''A, b@c.d  E/F!''
   \<and> clean_text (soup_get_text (example_service None)) ''A, b@c.d  E/F!'' = ''a, e f!''"
proof -
  have "clean_text (soup_get_text (example_service None))
     (clean_text (soup_get_text (example_service None)) ''A, b@c.d  E/F!'')
   = clean_text (soup_get_text (example_service None)) ''A, b@c.d  E/F!''"
    by (rule clean_text_idempotent) (simp add: example_service_def)
  moreover have "clean_text (soup_get_text (example_service None)) ''A, b@c.d  E/F!'' = ''a, e f!''"
    unfolding example_service_def by code_simp
  ultimately show ?thesis by blast
qed

end
